theory Spec2Isabelle
  imports Complex_Main
begin

section \<open>Values shared by all components\<close>

text \<open>
  A rejected promise or a thrown exception carries a JavaScript \<open>Error\<close>; only its
  message matters here. A fallible call returns \<open>error + 'a\<close>, \<open>Inl\<close> being the
  rejection.
\<close>

datatype error = Error string

text \<open>A Firestore \<open>Timestamp\<close> and the milliseconds of \<open>Date.now()\<close>, both as integers.\<close>

type_synonym timestamp = int

text \<open>A document reference: collection path and document id.\<close>

type_synonym docref = "string \<times> string"

subsection \<open>Numbers\<close>

text \<open>
  A JavaScript number is an IEEE 754 double, and the result of an arithmetic operation
  is the exact result rounded to the nearest double, ties to the even significand. A
  double is a real here. The doubles around \<open>x\<close> are the multiples of \<open>ulp x\<close>: 53 bits
  of significand in the binade of \<open>x\<close>, and the grid of the subnormals below \<open>2 ^ -1022\<close>.
  Overflow to \<open>Infinity\<close> is not part of \<open>fl64\<close>; where a result can overflow it is
  treated apart (\<open>backoffDelay\<close> below).
\<close>

definition roundTiesToEven :: "real \<Rightarrow> int" where
  "roundTiesToEven q =
     (if q - of_int \<lfloor>q\<rfloor> < 1 / 2 then \<lfloor>q\<rfloor>
      else if 1 / 2 < q - of_int \<lfloor>q\<rfloor> then \<lfloor>q\<rfloor> + 1
      else if even \<lfloor>q\<rfloor> then \<lfloor>q\<rfloor> else \<lfloor>q\<rfloor> + 1)"

definition ulp :: "real \<Rightarrow> real" where
  "ulp x = 2 powi (max \<lfloor>log 2 \<bar>x\<bar>\<rfloor> (- 1022) - 52)"

definition fl64 :: "real \<Rightarrow> real" where
  "fl64 x = of_int (roundTiesToEven (x / ulp x)) * ulp x"

definition isDouble :: "real \<Rightarrow> bool" where
  "isDouble x \<longleftrightarrow> fl64 x = x"

subsection \<open>types.ts: TestDocument\<close>

record nested_object =
  field1 :: string
  field2 :: int

record doc_metadata =
  createdAt :: timestamp
  environment :: string
  testRunId :: string
  batchId :: string

record testDocument =
  timestamp :: timestamp
  randomNumber :: int
  randomString :: string
  nestedObject :: nested_object
  arrayField :: "string list"
  metadata :: doc_metadata

subsection \<open>Object literals written to the monitoring collection\<close>

datatype fieldValue = NumV int | StrV string | TimeV timestamp

type_synonym payload = "(string \<times> fieldValue) list"

subsection \<open>Write batches\<close>

datatype writeOp = SetOp docref testDocument | DeleteOp docref

subsection \<open>config.ts\<close>

definition CONFIG_collections_stressTest :: string where
  "CONFIG_collections_stressTest = ''stress_test_docs''"

definition CONFIG_write_totalDocuments :: int where
  "CONFIG_write_totalDocuments = 5000"

definition CONFIG_write_batchSize :: int where
  "CONFIG_write_batchSize = 450"

definition CONFIG_cleanupThresholdHours :: int where
  "CONFIG_cleanupThresholdHours = 24"

record bigQueryConfig =
  projectId :: string
  datasetId :: string
  tableId :: string

section \<open>The collaborators\<close>

text \<open>
  Everything outside the program is an \<open>env\<close>: what the \<open>k\<close>-th call (counted from 0)
  of each external operation answers. \<open>None\<close> as the outcome of a write is success,
  \<open>Some err\<close> is a rejection with \<open>err\<close>.
  \<^item> \<open>commitOutcome\<close>: \<open>WriteBatch.commit()\<close>;
  \<^item> \<open>queryOutcome\<close>: \<open>Query.get()\<close>, answering the references of the page's documents;
  \<^item> \<open>fsCountOutcome\<close>: \<open>collection(..).count().get()\<close>;
  \<^item> \<open>bqCountOutcome\<close>: the BigQuery count query;
  \<^item> \<open>bqRejectsFirst\<close>: when both fetches of the \<open>k\<close>-th \<open>Promise.all\<close> reject, whether
    the BigQuery one rejects first (\<open>Promise.all\<close> rejects with the first rejection);
  \<^item> \<open>setOutcome\<close>, \<open>updateOutcome\<close>: \<open>DocumentReference.set\<close> and \<open>update\<close>;
  \<^item> \<open>clock\<close>: the \<open>k\<close>-th reading of the time (\<open>Timestamp.now()\<close>, \<open>Date.now()\<close>);
  \<^item> \<open>randomSrc\<close>: the \<open>k\<close>-th value of \<open>Math.random()\<close>, a double;
  \<^item> \<open>toString36\<close>: \<open>Number.prototype.toString(36)\<close>;
  \<^item> \<open>jsonStringify\<close>: \<open>JSON.stringify\<close> on a caught error: the string, or the error
    that \<open>JSON.stringify\<close> throws (a circular structure, a \<open>BigInt\<close>);
  \<^item> \<open>autoId\<close>: the \<open>k\<close>-th identifier that \<open>collection(..).doc()\<close> generates;
  \<^item> \<open>processEnvENVIRONMENT\<close>: \<open>process.env.ENVIRONMENT\<close>.
\<close>

record env =
  commitOutcome :: "nat \<Rightarrow> error option"
  queryOutcome :: "nat \<Rightarrow> error + docref list"
  fsCountOutcome :: "nat \<Rightarrow> error + int"
  bqCountOutcome :: "nat \<Rightarrow> error + int"
  bqRejectsFirst :: "nat \<Rightarrow> bool"
  setOutcome :: "nat \<Rightarrow> error option"
  updateOutcome :: "nat \<Rightarrow> error option"
  clock :: "nat \<Rightarrow> timestamp"
  randomSrc :: "nat \<Rightarrow> real"
  toString36 :: "real \<Rightarrow> string"
  jsonStringify :: "error \<Rightarrow> error + string"
  autoId :: "nat \<Rightarrow> string"
  processEnvENVIRONMENT :: "string option"

text \<open>
  The \<open>world\<close> is what the program has done so far: the log of every external call, in
  order, and the static field \<open>DocumentGenerator.testRunId\<close>. The number of calls of an
  operation is the length of its log.
\<close>

record world =
  commitLog :: "writeOp list list"
  queryLog :: "(string \<times> timestamp \<times> nat) list"
  fsCountLog :: "string list"
  bqQueryLog :: "bigQueryConfig list"
  promiseAllCalls :: nat
  setLog :: "(docref \<times> payload) list"
  updateLog :: "(docref \<times> payload) list"
  sleepLog :: "int list"
  autoIds :: nat
  clockReads :: nat
  randomCalls :: nat
  runId :: string

text \<open>\<open>CONFIG.environment = process.env.ENVIRONMENT || "development"\<close>: the empty string is falsy.\<close>

definition CONFIG_environment :: "env \<Rightarrow> string" where
  "CONFIG_environment e =
     (case processEnvENVIRONMENT e of
        None \<Rightarrow> ''development''
      | Some s \<Rightarrow> (if s = [] then ''development'' else s))"

subsection \<open>Primitive operations\<close>

definition Math_random :: "env \<Rightarrow> world \<Rightarrow> real \<times> world" where
  "Math_random e w = (randomSrc e (randomCalls w), w\<lparr>randomCalls := Suc (randomCalls w)\<rparr>)"

definition Timestamp_now :: "env \<Rightarrow> world \<Rightarrow> timestamp \<times> world" where
  "Timestamp_now e w = (clock e (clockReads w), w\<lparr>clockReads := Suc (clockReads w)\<rparr>)"

text \<open>\<open>Math.random().toString(36).substring(7)\<close>\<close>

definition randomId :: "env \<Rightarrow> world \<Rightarrow> string \<times> world" where
  "randomId e w = (case Math_random e w of (r, w') \<Rightarrow> (drop 7 (toString36 e r), w'))"

text \<open>\<open>db.collection(path).doc()\<close>: a reference with a fresh generated id.\<close>

definition newDoc :: "env \<Rightarrow> string \<Rightarrow> world \<Rightarrow> docref \<times> world" where
  "newDoc e path w = ((path, autoId e (autoIds w)), w\<lparr>autoIds := Suc (autoIds w)\<rparr>)"

text \<open>\<open>batch.commit()\<close>: the call is logged with its operations, the outcome is the env's.\<close>

definition commit :: "env \<Rightarrow> writeOp list \<Rightarrow> world \<Rightarrow> error option \<times> world" where
  "commit e ops w = (commitOutcome e (length (commitLog w)), w\<lparr>commitLog := commitLog w @ [ops]\<rparr>)"

text \<open>
  \<open>Math.pow(2, attempt) * 100\<close>, for the values \<open>attempt \<ge> 1\<close> that the retry loop
  computes it at. The product is \<open>25 * 2 ^ (attempt + 2)\<close>, which is a double as long as
  it is finite, so nothing is rounded: up to \<open>attempt = 1017\<close> the result is the exact
  integer, and from \<open>attempt = 1018\<close> on it is \<open>Infinity\<close>, the value \<open>None\<close>.
\<close>

definition backoffDelay :: "int \<Rightarrow> int option" where
  "backoffDelay attempt = (if attempt \<le> 1017 then Some (2 ^ nat attempt * 100) else None)"

text \<open>
  The duration of the timer that \<open>setTimeout(resolve, after)\<close> starts: a delay that is
  not between 1 and \<open>2 ^ 31 - 1\<close> milliseconds is replaced by 1 millisecond.
\<close>

definition setTimeout_delay :: "int option \<Rightarrow> int" where
  "setTimeout_delay after =
     (case after of
        None \<Rightarrow> 1
      | Some ms \<Rightarrow> (if 1 \<le> ms \<and> ms \<le> 2147483647 then ms else 1))"

text \<open>
  \<open>await new Promise((resolve) => setTimeout(resolve, after))\<close>: the log keeps the time
  that is waited.
\<close>

definition sleep :: "int option \<Rightarrow> world \<Rightarrow> world" where
  "sleep after w = w\<lparr>sleepLog := sleepLog w @ [setTimeout_delay after]\<rparr>"

section \<open>utils.ts: DocumentGenerator\<close>

text \<open>
  The static initialiser \<open>testRunId = Math.random().toString(36).substring(7)\<close> runs once,
  when the class is loaded.
\<close>

definition DocumentGenerator_init :: "env \<Rightarrow> world \<Rightarrow> world" where
  "DocumentGenerator_init e w = (case randomId e w of (s, w') \<Rightarrow> w'\<lparr>runId := s\<rparr>)"

text \<open>\<open>Array.from({ length: n }, () => Math.random().toString(36).substring(7))\<close>\<close>

fun randomIds :: "env \<Rightarrow> nat \<Rightarrow> world \<Rightarrow> string list \<times> world" where
  "randomIds e 0 w = ([], w)"
| "randomIds e (Suc n) w =
     (case randomId e w of (s, w1) \<Rightarrow>
      case randomIds e n w1 of (ss, w2) \<Rightarrow> (s # ss, w2))"

text \<open>
  The fields of the object literal are evaluated in the order they are written.
  \<open>Math.floor(Math.random() * 1000)\<close> is the floor of the rounded product.
\<close>

definition generateDocument :: "env \<Rightarrow> world \<Rightarrow> testDocument \<times> world" where
  "generateDocument e w0 =
     (case Timestamp_now e w0 of (ts, w1) \<Rightarrow>
      case Math_random e w1 of (r1, w2) \<Rightarrow>
      case randomId e w2 of (rs, w3) \<Rightarrow>
      case randomId e w3 of (f1, w4) \<Rightarrow>
      case Math_random e w4 of (r2, w5) \<Rightarrow>
      case randomIds e 5 w5 of (arr, w6) \<Rightarrow>
      case Timestamp_now e w6 of (ca, w7) \<Rightarrow>
      case randomId e w7 of (bid, w8) \<Rightarrow>
        (\<lparr> timestamp = ts,
            randomNumber = \<lfloor>fl64 (r1 * 1000)\<rfloor>,
            randomString = rs,
            nestedObject = \<lparr> field1 = f1, field2 = \<lfloor>fl64 (r2 * 100)\<rfloor> \<rparr>,
            arrayField = arr,
            metadata = \<lparr> createdAt = ca, environment = CONFIG_environment e,
                         testRunId = runId w8, batchId = bid \<rparr> \<rparr>, w8))"

text \<open>\<open>Array.from({ length: n }, () => DocumentGenerator.generateDocument())\<close>\<close>

fun generateDocuments :: "env \<Rightarrow> nat \<Rightarrow> world \<Rightarrow> testDocument list \<times> world" where
  "generateDocuments e 0 w = ([], w)"
| "generateDocuments e (Suc n) w =
     (case generateDocument e w of (d, w1) \<Rightarrow>
      case generateDocuments e n w1 of (ds, w2) \<Rightarrow> (d # ds, w2))"

section \<open>utils.ts: BatchWriter\<close>

text \<open>
  The body of the \<open>forEach\<close>: a fresh reference in the stress-test collection for each
  document, and a \<open>set\<close> operation added to the batch.
\<close>

fun buildBatch :: "env \<Rightarrow> testDocument list \<Rightarrow> writeOp list \<Rightarrow> world \<Rightarrow> writeOp list \<times> world" where
  "buildBatch e [] batch w = (batch, w)"
| "buildBatch e (d # ds) batch w =
     (case newDoc e CONFIG_collections_stressTest w of
        (docRef, w1) \<Rightarrow> buildBatch e ds (batch @ [SetOp docRef d]) w1)"

text \<open>
  One attempt, the \<open>try\<close> block: \<open>db.batch()\<close> is the empty batch, the documents are added,
  and the batch is committed.
\<close>

definition attemptWrite :: "env \<Rightarrow> testDocument list \<Rightarrow> world \<Rightarrow> error option \<times> world" where
  "attemptWrite e documents w =
     (case buildBatch e documents [] w of (batch, w1) \<Rightarrow> commit e batch w1)"

text \<open>
  The \<open>while (attempt < maxRetries)\<close> loop. The parameter \<open>batchNumber\<close> is not used by
  the body. \<open>Math.pow(2, attempt) * 100\<close> is computed after the increment of \<open>attempt\<close>.
\<close>

function writeLoop ::
  "env \<Rightarrow> testDocument list \<Rightarrow> int \<Rightarrow> int \<Rightarrow> world \<Rightarrow> (error + nat) \<times> world" where
  "writeLoop e documents maxRetries attempt w =
     (if attempt < maxRetries then
        (case attemptWrite e documents w of
           (None, w1) \<Rightarrow> (Inr (length documents), w1)
         | (Some err, w1) \<Rightarrow>
             (if attempt + 1 = maxRetries then (Inl err, w1)
              else writeLoop e documents maxRetries (attempt + 1)
                     (sleep (backoffDelay (attempt + 1)) w1)))
      else (Inr 0, w))"
  by pat_completeness auto
termination
  by (relation "measure (\<lambda>(e, documents, maxRetries, attempt, w). nat (maxRetries - attempt))") auto

definition writeBatchWithRetry ::
  "env \<Rightarrow> testDocument list \<Rightarrow> int \<Rightarrow> int \<Rightarrow> world \<Rightarrow> (error + nat) \<times> world" where
  "writeBatchWithRetry e documents batchNumber maxRetries w = writeLoop e documents maxRetries 0 w"


section \<open>monitoring.ts: MonitoringService\<close>

text \<open>
  \<open>getFirestoreCount\<close> and \<open>getBigQueryCount\<close>: each call is logged with what it asks
  for and answers what the env says. A rejection of the request and an exception while
  reading the answer (\<open>rows[0].count\<close>) are both the outcome \<open>Inl\<close>.
\<close>

definition getFirestoreCount :: "env \<Rightarrow> string \<Rightarrow> world \<Rightarrow> (error + int) \<times> world" where
  "getFirestoreCount e collectionPath w =
     (fsCountOutcome e (length (fsCountLog w)), w\<lparr>fsCountLog := fsCountLog w @ [collectionPath]\<rparr>)"

definition getBigQueryCount :: "env \<Rightarrow> bigQueryConfig \<Rightarrow> world \<Rightarrow> (error + int) \<times> world" where
  "getBigQueryCount e bqConfig w =
     (bqCountOutcome e (length (bqQueryLog w)), w\<lparr>bqQueryLog := bqQueryLog w @ [bqConfig]\<rparr>)"

text \<open>
  \<open>Promise.all\<close> of two promises: fulfilled with both values, or rejected with the
  rejection that comes first.
\<close>

definition Promise_all :: "bool \<Rightarrow> error + 'a \<Rightarrow> error + 'b \<Rightarrow> error + ('a \<times> 'b)" where
  "Promise_all secondRejectsFirst r1 r2 =
     (case r1 of
        Inr a \<Rightarrow> (case r2 of Inr b \<Rightarrow> Inr (a, b) | Inl e2 \<Rightarrow> Inl e2)
      | Inl e1 \<Rightarrow> (case r2 of Inr b \<Rightarrow> Inl e1
                           | Inl e2 \<Rightarrow> Inl (if secondRejectsFirst then e2 else e1)))"

text \<open>
  \<open>await Promise.all([this.getFirestoreCount(collectionPath), this.getBigQueryCount()])\<close>:
  both requests are issued before anything is awaited.
\<close>

definition fetchCounts ::
  "env \<Rightarrow> bigQueryConfig \<Rightarrow> string \<Rightarrow> world \<Rightarrow> (error + int \<times> int) \<times> world" where
  "fetchCounts e bqConfig collectionPath w =
     (case getFirestoreCount e collectionPath w of (r1, w1) \<Rightarrow>
      case getBigQueryCount e bqConfig w1 of (r2, w2) \<Rightarrow>
        (Promise_all (bqRejectsFirst e (promiseAllCalls w2)) r1 r2,
         w2\<lparr>promiseAllCalls := Suc (promiseAllCalls w2)\<rparr>))"

definition docSet :: "env \<Rightarrow> docref \<Rightarrow> payload \<Rightarrow> world \<Rightarrow> error option \<times> world" where
  "docSet e ref p w = (setOutcome e (length (setLog w)), w\<lparr>setLog := setLog w @ [(ref, p)]\<rparr>)"

definition docUpdate :: "env \<Rightarrow> docref \<Rightarrow> payload \<Rightarrow> world \<Rightarrow> error option \<times> world" where
  "docUpdate e ref p w =
     (updateOutcome e (length (updateLog w)), w\<lparr>updateLog := updateLog w @ [(ref, p)]\<rparr>)"

definition pendingReport :: "timestamp \<Rightarrow> int \<Rightarrow> int \<Rightarrow> payload" where
  "pendingReport writeTime beforeFirestore beforeBigquery =
     [(''writeTime'', TimeV writeTime),
      (''before_firestore'', NumV beforeFirestore),
      (''before_bigquery'', NumV beforeBigquery),
      (''status'', StrV ''pending'')]"

definition completedReport :: "int \<Rightarrow> int \<Rightarrow> timestamp \<Rightarrow> payload" where
  "completedReport afterFirestore afterBigquery completedAt =
     [(''after_firestore'', NumV afterFirestore),
      (''after_bigquery'', NumV afterBigquery),
      (''status'', StrV ''completed''),
      (''completedAt'', TimeV completedAt)]"

definition failedReport :: "string \<Rightarrow> timestamp \<Rightarrow> payload" where
  "failedReport serialized completedAt =
     [(''status'', StrV ''failed''),
      (''error'', StrV serialized),
      (''completedAt'', TimeV completedAt)]"

text \<open>
  \<open>createReport\<close>. Everything after \<open>writeTime\<close> is inside the \<open>try\<close>; the \<open>catch\<close>
  writes to the console and throws the error it caught.
\<close>

definition createReport ::
  "env \<Rightarrow> bigQueryConfig \<Rightarrow> string \<Rightarrow> world \<Rightarrow> (error + string) \<times> world" where
  "createReport e bqConfig collectionPath w0 =
     (case Timestamp_now e w0 of (writeTime, w1) \<Rightarrow>
       (case fetchCounts e bqConfig collectionPath w1 of
          (Inl err, w2) \<Rightarrow> (Inl err, w2)
        | (Inr (beforeFirestore, beforeBigquery), w2) \<Rightarrow>
            (case newDoc e ''monitoring'' w2 of (reportRef, w3) \<Rightarrow>
              (case docSet e reportRef
                      (pendingReport writeTime beforeFirestore beforeBigquery) w3 of
                 (Some err, w4) \<Rightarrow> (Inl err, w4)
               | (None, w4) \<Rightarrow> (Inr (snd reportRef), w4)))))"

text \<open>
  The \<open>catch\<close> block of \<open>finalizeReport\<close>. The argument of \<open>update\<close> is evaluated first:
  the error is serialized, then the time is read. Then the update is awaited, and only
  then is the caught error thrown. When \<open>JSON.stringify\<close> throws, \<open>update\<close> is not called
  and the block is left with what was thrown; an update that rejects leaves the block
  with its own error.
\<close>

definition finalizeCatch :: "env \<Rightarrow> string \<Rightarrow> error \<Rightarrow> world \<Rightarrow> (error + unit) \<times> world" where
  "finalizeCatch e reportId err w0 =
     (case jsonStringify e err of
        Inl thrown \<Rightarrow> (Inl thrown, w0)
      | Inr serialized \<Rightarrow>
          (case Timestamp_now e w0 of (completedAt, w1) \<Rightarrow>
            (case docUpdate e (''monitoring'', reportId)
                    (failedReport serialized completedAt) w1 of
               (Some err2, w2) \<Rightarrow> (Inl err2, w2)
             | (None, w2) \<Rightarrow> (Inl err, w2))))"

text \<open>\<open>finalizeReport\<close>: the update of the \<open>try\<close> block is inside the \<open>try\<close> as well.\<close>

definition finalizeReport ::
  "env \<Rightarrow> bigQueryConfig \<Rightarrow> string \<Rightarrow> string \<Rightarrow> world \<Rightarrow> (error + unit) \<times> world" where
  "finalizeReport e bqConfig reportId collectionPath w0 =
     (case fetchCounts e bqConfig collectionPath w0 of
        (Inl err, w1) \<Rightarrow> finalizeCatch e reportId err w1
      | (Inr (afterFirestore, afterBigquery), w1) \<Rightarrow>
          (case Timestamp_now e w1 of (completedAt, w2) \<Rightarrow>
            (case docUpdate e (''monitoring'', reportId)
                    (completedReport afterFirestore afterBigquery completedAt) w2 of
               (Some err, w3) \<Rightarrow> finalizeCatch e reportId err w3
             | (None, w3) \<Rightarrow> (Inr (), w3))))"

section \<open>index.ts: cleanupOldDocuments\<close>

text \<open>
  \<open>db.collection(path).where("timestamp", "<", threshold).limit(n).get()\<close>: the call is
  logged with its arguments; the store answers at most \<open>n\<close> documents.
\<close>

definition runQuery ::
  "env \<Rightarrow> string \<Rightarrow> timestamp \<Rightarrow> nat \<Rightarrow> world \<Rightarrow> (error + docref list) \<times> world" where
  "runQuery e path threshold limit w =
     (case queryOutcome e (length (queryLog w)) of
        Inl err \<Rightarrow> Inl err
      | Inr docs \<Rightarrow> Inr (take limit docs),
      w\<lparr>queryLog := queryLog w @ [(path, threshold, limit)]\<rparr>)"

text \<open>
  The \<open>while (true)\<close> loop. \<open>snapshot.empty\<close> is \<open>snapshot = []\<close> and \<open>snapshot.size\<close> is
  its length. A store that answers a full page for ever keeps the loop running: the
  result \<open>None\<close> is a run that does not return. A rejected query or commit leaves the
  loop through the \<open>catch\<close> of the handler, which logs and throws the error.
\<close>

partial_function (option) cleanupLoop ::
  "env \<Rightarrow> timestamp \<Rightarrow> nat \<Rightarrow> world \<Rightarrow> ((error + nat) \<times> world) option" where
  "cleanupLoop e threshold totalDeleted w =
     (case runQuery e CONFIG_collections_stressTest threshold 500 w of
        (Inl err, w1) \<Rightarrow> Some (Inl err, w1)
      | (Inr snapshot, w1) \<Rightarrow>
          (if snapshot = [] then Some (Inr totalDeleted, w1)
           else (case commit e (map DeleteOp snapshot) w1 of
                   (Some err, w2) \<Rightarrow> Some (Inl err, w2)
                 | (None, w2) \<Rightarrow>
                     (if length snapshot < 500
                      then Some (Inr (totalDeleted + length snapshot), w2)
                      else cleanupLoop e threshold (totalDeleted + length snapshot) w2))))"

text \<open>
  The handler computes the threshold once, from \<open>Date.now()\<close>, and runs the loop. It
  returns nothing to its caller: the result \<open>Inr n\<close> is the \<open>deletedCount\<close> it reports to
  \<open>logger.info\<close>, and \<open>Inl err\<close> is the error it throws.
\<close>

definition cleanupOldDocuments :: "env \<Rightarrow> world \<Rightarrow> ((error + nat) \<times> world) option" where
  "cleanupOldDocuments e w0 =
     (case Timestamp_now e w0 of (now, w1) \<Rightarrow>
        cleanupLoop e (now - CONFIG_cleanupThresholdHours * 60 * 60 * 1000) 0 w1)"

section \<open>index.ts: the batches of bulkWriteDocuments\<close>

text \<open>\<open>Math.ceil(totalDocuments / batchSize)\<close>\<close>

definition numberOfBatches :: "int \<Rightarrow> int \<Rightarrow> int" where
  "numberOfBatches totalDocuments batchSize =
     \<lceil>real_of_int totalDocuments / real_of_int batchSize\<rceil>"

definition docsInThisBatch :: "int \<Rightarrow> int \<Rightarrow> int \<Rightarrow> int \<Rightarrow> int" where
  "docsInThisBatch totalDocuments batchSize n i =
     (if i = n - 1 then totalDocuments - i * batchSize else batchSize)"

text \<open>
  The \<open>for\<close> loop: for each \<open>i\<close> below the number of batches the documents are generated
  (\<open>Array.from\<close> with a negative length gives the empty array) and
  \<open>writeBatchWithRetry(documents, i)\<close> is called. The loop's result is the list of these
  calls, in order; the handler awaits them together afterwards.
\<close>

function dispatchLoop ::
  "env \<Rightarrow> int \<Rightarrow> int \<Rightarrow> int \<Rightarrow> int \<Rightarrow> (testDocument list \<times> int) list \<Rightarrow> world
    \<Rightarrow> (testDocument list \<times> int) list \<times> world" where
  "dispatchLoop e totalDocuments batchSize n i batches w =
     (if i < n then
        (case generateDocuments e (nat (docsInThisBatch totalDocuments batchSize n i)) w of
           (documents, w1) \<Rightarrow>
             dispatchLoop e totalDocuments batchSize n (i + 1) (batches @ [(documents, i)]) w1)
      else (batches, w))"
  by pat_completeness auto
termination
  by (relation "measure (\<lambda>(e, totalDocuments, batchSize, n, i, batches, w). nat (n - i))") auto

definition dispatchBatches ::
  "env \<Rightarrow> int \<Rightarrow> int \<Rightarrow> world \<Rightarrow> (testDocument list \<times> int) list \<times> world" where
  "dispatchBatches e totalDocuments batchSize w =
     dispatchLoop e totalDocuments batchSize (numberOfBatches totalDocuments batchSize) 0 [] w"

text \<open>The sizes of the dispatched batches.\<close>

definition batchSizes :: "(testDocument list \<times> int) list \<Rightarrow> nat list" where
  "batchSizes batches = map (\<lambda>b. length (fst b)) batches"


section \<open>The lifetime of a process\<close>

text \<open>
  After the classes are loaded, a process does nothing but run the operations above,
  one after the other, each from the state the one before has left. A run of the
  cleanup that does not return leaves no state.
\<close>

datatype operation =
    GenerateDocument
  | GenerateDocuments nat
  | WriteBatchWithRetry "testDocument list" int int
  | CreateReport bigQueryConfig string
  | FinalizeReport bigQueryConfig string string
  | CleanupOldDocuments
  | DispatchBatches int int

fun perform :: "env \<Rightarrow> operation \<Rightarrow> world \<Rightarrow> world option" where
  "perform e GenerateDocument w = Some (snd (generateDocument e w))"
| "perform e (GenerateDocuments n) w = Some (snd (generateDocuments e n w))"
| "perform e (WriteBatchWithRetry documents batchNumber maxRetries) w =
     Some (snd (writeBatchWithRetry e documents batchNumber maxRetries w))"
| "perform e (CreateReport bqConfig collectionPath) w =
     Some (snd (createReport e bqConfig collectionPath w))"
| "perform e (FinalizeReport bqConfig reportId collectionPath) w =
     Some (snd (finalizeReport e bqConfig reportId collectionPath w))"
| "perform e CleanupOldDocuments w = map_option snd (cleanupOldDocuments e w)"
| "perform e (DispatchBatches totalDocuments batchSize) w =
     Some (snd (dispatchBatches e totalDocuments batchSize w))"

fun lifetime :: "env \<Rightarrow> operation list \<Rightarrow> world \<Rightarrow> world option" where
  "lifetime e [] w = Some w"
| "lifetime e (x # xs) w =
     (case perform e x w of None \<Rightarrow> None | Some w1 \<Rightarrow> lifetime e xs w1)"

section \<open>Counting calls\<close>

definition commitCalls :: "world \<Rightarrow> nat" where
  "commitCalls w = length (commitLog w)"

definition queryCalls :: "world \<Rightarrow> nat" where
  "queryCalls w = length (queryLog w)"

definition setCalls :: "world \<Rightarrow> nat" where
  "setCalls w = length (setLog w)"

definition updateCalls :: "world \<Rightarrow> nat" where
  "updateCalls w = length (updateLog w)"

section \<open>Concrete collaborators\<close>

text \<open>The state of a process that has called nothing yet.\<close>

definition world0 :: world where
  "world0 = \<lparr> commitLog = [], queryLog = [], fsCountLog = [], bqQueryLog = [],
               promiseAllCalls = 0, setLog = [], updateLog = [], sleepLog = [],
               autoIds = 0, clockReads = 0, randomCalls = 0, runId = ''k3x9q'' \<rparr>"

text \<open>
  A store on which everything succeeds: every write is accepted, every query answers
  the empty page, the counts are 200 and 100. The random source always gives the double
  that \<open>0.994\<close> denotes, which is \<open>8953156059212546 / 2 ^ 53\<close>.
\<close>

definition envOK :: env where
  "envOK = \<lparr> commitOutcome = (\<lambda>k. None),
              queryOutcome = (\<lambda>k. Inr []),
              fsCountOutcome = (\<lambda>k. Inr 200),
              bqCountOutcome = (\<lambda>k. Inr 100),
              bqRejectsFirst = (\<lambda>k. False),
              setOutcome = (\<lambda>k. None),
              updateOutcome = (\<lambda>k. None),
              clock = (\<lambda>k. 1234567890 + int k),
              randomSrc = (\<lambda>k. 8953156059212546 / 2 ^ 53),
              toString36 = (\<lambda>r. ''0.i8f3k2m9x1''),
              jsonStringify = (\<lambda>err. Inr ''{}''),
              autoId = (\<lambda>k. ''mock-doc-id''),
              processEnvENVIRONMENT = None \<rparr>"

definition testConfig :: bigQueryConfig where
  "testConfig = \<lparr> projectId = ''test-project'', datasetId = ''test_dataset'',
                   tableId = ''test_table'' \<rparr>"

definition sampleDoc :: testDocument where
  "sampleDoc = \<lparr> timestamp = 1234567890, randomNumber = 500, randomString = ''k2m9x1'',
                  nestedObject = \<lparr> field1 = ''k2m9x1'', field2 = 50 \<rparr>,
                  arrayField = [''a'', ''b'', ''c'', ''d'', ''e''],
                  metadata = \<lparr> createdAt = 1234567891, environment = ''development'',
                               testRunId = ''k3x9q'', batchId = ''k2m9x1'' \<rparr> \<rparr>"

text \<open>A store whose commits are all rejected.\<close>

definition envCommitFails :: env where
  "envCommitFails = envOK\<lparr>commitOutcome := (\<lambda>k. Some (Error ''Persistent error''))\<rparr>"

text \<open>A store whose first 25 commits are rejected.\<close>

definition envCommitFails25 :: env where
  "envCommitFails25 =
     envOK\<lparr>commitOutcome := (\<lambda>k. if k < 25 then Some (Error ''Temporary error'') else None)\<rparr>"

text \<open>A store whose first two commits are rejected.\<close>

definition envCommitFailsTwice :: env where
  "envCommitFailsTwice =
     envOK\<lparr>commitOutcome := (\<lambda>k. if k < 2 then Some (Error ''Temporary error'') else None)\<rparr>"

text \<open>Stores that answer the cleanup queries with pages of the given sizes.\<close>

definition oldDoc :: docref where
  "oldDoc = (''stress_test_docs'', ''doc'')"

definition envPages_500_300_0 :: env where
  "envPages_500_300_0 =
     envOK\<lparr>queryOutcome := (\<lambda>k. if k = 0 then Inr (replicate 500 oldDoc)
                                else if k = 1 then Inr (replicate 300 oldDoc)
                                else Inr [])\<rparr>"

definition envPage_300 :: env where
  "envPage_300 = envOK\<lparr>queryOutcome := (\<lambda>k. Inr (replicate 300 oldDoc))\<rparr>"

text \<open>Stores that reject the count, the persisting and the updates of the reports.\<close>

definition envCountFails :: env where
  "envCountFails = envOK\<lparr>fsCountOutcome := (\<lambda>k. Inl (Error ''Count failed''))\<rparr>"

definition envUpdateFails :: env where
  "envUpdateFails = envOK\<lparr>updateOutcome := (\<lambda>k. Some (Error ''Update failed''))\<rparr>"

definition envCountAndUpdateFail :: env where
  "envCountAndUpdateFail =
     envCountFails\<lparr>updateOutcome := (\<lambda>k. Some (Error ''Update failed''))\<rparr>"

text \<open>An error of the count that \<open>JSON.stringify\<close> cannot serialize.\<close>

definition envCountFailsCircular :: env where
  "envCountFailsCircular =
     envCountFails\<lparr>jsonStringify :=
       (\<lambda>err. Inl (Error ''Converting circular structure to JSON''))\<rparr>"


section \<open>Rounding to a double\<close>

lemma roundTiesToEven_error: "\<bar>of_int (roundTiesToEven q) - q\<bar> \<le> 1 / 2"
  unfolding roundTiesToEven_def by (auto simp: abs_le_iff)

lemma roundTiesToEven_nonneg: "0 \<le> q \<Longrightarrow> 0 \<le> roundTiesToEven q"
  unfolding roundTiesToEven_def by auto

lemma roundTiesToEven_of_int: "roundTiesToEven (of_int n) = n"
  unfolding roundTiesToEven_def by simp

lemma ulp_pos: "0 < ulp x"
  by (simp add: ulp_def)

lemma fl64_nonneg: "0 \<le> x \<Longrightarrow> 0 \<le> fl64 x"
  unfolding fl64_def using ulp_pos[of x] by (simp add: roundTiesToEven_nonneg)

lemma fl64_error: "\<bar>fl64 x - x\<bar> \<le> ulp x / 2"
proof -
  have u: "0 < ulp x" by (rule ulp_pos)
  have "fl64 x - x = (of_int (roundTiesToEven (x / ulp x)) - x / ulp x) * ulp x"
    using u by (simp add: fl64_def algebra_simps)
  then have "\<bar>fl64 x - x\<bar> = \<bar>of_int (roundTiesToEven (x / ulp x)) - x / ulp x\<bar> * ulp x"
    using u by (simp add: abs_mult)
  also have "\<dots> \<le> (1 / 2) * ulp x"
    using roundTiesToEven_error[of "x / ulp x"] u by (intro mult_right_mono) simp_all
  finally show ?thesis by simp
qed

lemma floor_log2_eq:
  assumes "0 < x" "2 powi k \<le> x" "x < 2 powi (k + 1)"
  shows "\<lfloor>log 2 x\<rfloor> = k"
proof -
  have "2 powr real_of_int k = (2::real) powi k"
    by (simp add: powr_real_of_int')
  moreover have "2 powr (real_of_int k + 1) = (2::real) powi (k + 1)"
    using powr_real_of_int'[of 2 "k + 1"] by simp
  ultimately show ?thesis using assms floor_log_eq_powr_iff[of x 2 k] by simp
qed

lemma floor_log2_bounds:
  assumes "0 < x"
  shows "2 powi \<lfloor>log 2 x\<rfloor> \<le> x \<and> x < 2 powi (\<lfloor>log 2 x\<rfloor> + 1)"
proof -
  have "2 powr real_of_int \<lfloor>log 2 x\<rfloor> \<le> x \<and> x < 2 powr (real_of_int \<lfloor>log 2 x\<rfloor> + 1)"
    using floor_log_eq_powr_iff[of x 2 "\<lfloor>log 2 x\<rfloor>"] assms by simp
  moreover have "2 powr real_of_int \<lfloor>log 2 x\<rfloor> = (2::real) powi \<lfloor>log 2 x\<rfloor>"
    by (simp add: powr_real_of_int')
  moreover have "2 powr (real_of_int \<lfloor>log 2 x\<rfloor> + 1) = (2::real) powi (\<lfloor>log 2 x\<rfloor> + 1)"
    using powr_real_of_int'[of 2 "\<lfloor>log 2 x\<rfloor> + 1"] by simp
  ultimately show ?thesis by simp
qed

lemma ulp_eq:
  assumes "0 < x" "2 powi k \<le> x" "x < 2 powi (k + 1)" "- 1022 \<le> k"
  shows "ulp x = 2 powi (k - 52)"
  using floor_log2_eq[OF assms(1-3)] assms by (simp add: ulp_def max_def)

lemma ulp_le:
  assumes "0 < x" "x < 2 powi (k + 1)" "- 1022 \<le> k"
  shows "ulp x \<le> 2 powi (k - 52)"
proof -
  have "2 powi \<lfloor>log 2 x\<rfloor> < (2::real) powi (k + 1)"
    using floor_log2_bounds[OF assms(1)] assms(2) by linarith
  then have "\<lfloor>log 2 x\<rfloor> < k + 1"
    using power_int_increasing[of "k + 1" "\<lfloor>log 2 x\<rfloor>" "2::real"] by (cases "\<lfloor>log 2 x\<rfloor> < k + 1") auto
  then have "max \<lfloor>log 2 \<bar>x\<bar>\<rfloor> (- 1022) - 52 \<le> k - 52" using assms(1,3) by simp
  then show ?thesis unfolding ulp_def by (intro power_int_increasing) simp_all
qed



lemma int_below_pow: 
  fixes n :: int
  assumes "real_of_int n < 2 ^ 53"
  shows "real_of_int n \<le> 2 ^ 53 - 1"
proof -
  have "real_of_int n < real_of_int (2 ^ 53)" using assms by simp
  then have "n < 2 ^ 53" by (simp only: of_int_less_iff)
  then have "n \<le> 2 ^ 53 - 1" by simp
  then have "real_of_int n \<le> real_of_int (2 ^ 53 - 1)" by (simp only: of_int_le_iff)
  then show ?thesis by simp
qed

lemma double_below_one:
  assumes "isDouble r" "0 \<le> r" "r < 1"
  shows "r \<le> 1 - 1 / 2 ^ 53"
proof (cases "r = 0")
  case True
  then show ?thesis by simp
next
  case False
  then have pos: "0 < r" using assms(2) by simp
  let ?e = "\<lfloor>log 2 r\<rfloor>"
  have b: "2 powi ?e \<le> r" "r < 2 powi (?e + 1)" using floor_log2_bounds[OF pos] by simp_all
  have e: "?e \<le> - 1"
  proof (rule ccontr)
    assume "\<not> ?e \<le> - 1"
    then have "0 \<le> ?e" by linarith
    then have "(2::real) powi 0 \<le> 2 powi ?e" by (intro power_int_increasing) simp_all
    then show False using b(1) assms(3) by simp
  qed
  show ?thesis
  proof (cases "?e = - 1")
    case True
    have u: "ulp r = 1 / 2 ^ 53" using True pos by (simp add: ulp_def power_int_minus field_simps)
    have "r = of_int (roundTiesToEven (r / ulp r)) * ulp r"
      using assms(1) by (simp add: isDouble_def fl64_def)
    then have "r = of_int (roundTiesToEven (r / (1 / 2 ^ 53))) * (1 / 2 ^ 53)" unfolding u .
    then obtain n :: int where r: "r = of_int n * (1 / 2 ^ 53)" ..
    have "real_of_int n = r * 2 ^ 53" by (subst r) simp
    then have "real_of_int n < 2 ^ 53" using assms(3) by simp
    then have "real_of_int n \<le> 2 ^ 53 - 1" by (rule int_below_pow)
    then have "real_of_int n * (1 / 2 ^ 53) \<le> (2 ^ 53 - 1) * (1 / 2 ^ 53)"
      by (intro mult_right_mono) simp_all
    then show ?thesis unfolding r[symmetric] by (simp add: field_simps)
  next
    case False
    then have "?e + 1 \<le> - 1" using e by simp
    then have "(2::real) powi (?e + 1) \<le> 2 powi (- 1)" by (intro power_int_increasing) simp_all
    then have "r < 1 / 2" using b(2) by (simp add: power_int_minus)
    then show ?thesis by simp
  qed
qed

lemma floor_fl64_below:
  fixes x d :: real and c k :: int
  assumes "0 \<le> x" "x \<le> of_int c - d" "x < 2 powi (k + 1)" "- 1022 \<le> k" "2 powi (k - 52) / 2 < d"
  shows "0 \<le> \<lfloor>fl64 x\<rfloor> \<and> \<lfloor>fl64 x\<rfloor> < c"
proof (cases "x = 0")
  case True
  then have "fl64 x = 0" by (simp add: fl64_def roundTiesToEven_def)
  moreover have "0 < d" using assms(5) by (smt (verit) zero_less_power_int half_gt_zero)
  ultimately show ?thesis using assms(1,2) True by simp
next
  case False
  then have pos: "0 < x" using assms(1) by simp
  have "fl64 x \<le> x + ulp x / 2" using fl64_error[of x] by linarith
  also have "\<dots> \<le> x + 2 powi (k - 52) / 2" using ulp_le[OF pos assms(3,4)] by simp
  also have "\<dots> < of_int c" using assms(2,5) by linarith
  finally have "fl64 x < of_int c" .
  then have "\<lfloor>fl64 x\<rfloor> < c" by (simp add: floor_less_iff)
  moreover have "0 \<le> \<lfloor>fl64 x\<rfloor>" using fl64_nonneg[OF assms(1)] by simp
  ultimately show ?thesis by simp
qed

lemma floor_fl64_times_1000:
  assumes "isDouble r" "0 \<le> r" "r < 1"
  shows "0 \<le> \<lfloor>fl64 (r * 1000)\<rfloor> \<and> \<lfloor>fl64 (r * 1000)\<rfloor> < 1000"
proof -
  have r: "r \<le> 1 - 1 / 2 ^ 53" by (rule double_below_one[OF assms])
  have "0 \<le> \<lfloor>fl64 (r * 1000)\<rfloor> \<and> \<lfloor>fl64 (r * 1000)\<rfloor> < 1000"
  proof (rule floor_fl64_below[of "r * 1000" 1000 "1000 / 2 ^ 53" 9])
    show "0 \<le> r * 1000" using assms(2) by simp
    show "r * 1000 \<le> real_of_int 1000 - 1000 / 2 ^ 53" using r by (simp add: field_simps)
    show "r * 1000 < 2 powi (9 + 1)" using assms(3) by simp
    show "- 1022 \<le> (9::int)" by simp
    show "2 powi (9 - 52) / 2 < (1000 / 2 ^ 53 :: real)" by (simp add: power_int_minus field_simps)
  qed
  then show ?thesis .
qed

lemma floor_fl64_times_100:
  assumes "isDouble r" "0 \<le> r" "r < 1"
  shows "0 \<le> \<lfloor>fl64 (r * 100)\<rfloor> \<and> \<lfloor>fl64 (r * 100)\<rfloor> < 100"
proof -
  have r: "r \<le> 1 - 1 / 2 ^ 53" by (rule double_below_one[OF assms])
  have "0 \<le> \<lfloor>fl64 (r * 100)\<rfloor> \<and> \<lfloor>fl64 (r * 100)\<rfloor> < 100"
  proof (rule floor_fl64_below[of "r * 100" 100 "100 / 2 ^ 53" 6])
    show "0 \<le> r * 100" using assms(2) by simp
    show "r * 100 \<le> real_of_int 100 - 100 / 2 ^ 53" using r by (simp add: field_simps)
    show "r * 100 < 2 powi (6 + 1)" using assms(3) by simp
    show "- 1022 \<le> (6::int)" by simp
    show "2 powi (6 - 52) / 2 < (100 / 2 ^ 53 :: real)" by (simp add: power_int_minus field_simps)
  qed
  then show ?thesis .
qed

lemma fl64_eval:
  assumes "0 < x" "2 powi k \<le> x" "x < 2 powi (k + 1)" "- 1022 \<le> k"
  shows "fl64 x = of_int (roundTiesToEven (x / 2 powi (k - 52))) * 2 powi (k - 52)"
  by (simp add: fl64_def ulp_eq[OF assms])

lemma isDouble_0994: "isDouble (8953156059212546 / 2 ^ 53)"
proof -
  have "fl64 (8953156059212546 / 2 ^ 53) =
          of_int (roundTiesToEven ((8953156059212546 / 2 ^ 53) / 2 powi (- 1 - 52))) * 2 powi (- 1 - 52)"
    by (rule fl64_eval) (simp_all add: power_int_minus)
  also have "(8953156059212546 / 2 ^ 53) / 2 powi (- 1 - 52) = real_of_int 8953156059212546"
    by (simp add: power_int_minus)
  finally show ?thesis
    unfolding isDouble_def by (simp only: roundTiesToEven_of_int) (simp add: power_int_minus)
qed

lemma fl64_0994_times_1000: "\<lfloor>fl64 (8953156059212546 / 2 ^ 53 * 1000)\<rfloor> = 994"
proof -
  have "fl64 (8953156059212546 / 2 ^ 53 * 1000) =
          of_int (roundTiesToEven ((8953156059212546 / 2 ^ 53 * 1000) / 2 powi (9 - 52))) * 2 powi (9 - 52)"
    by (rule fl64_eval) (simp_all add: power_int_minus)
  also have "roundTiesToEven ((8953156059212546 / 2 ^ 53 * 1000) / 2 powi (9 - 52)) = 8743316464074752"
    by (simp add: roundTiesToEven_def power_int_minus)
  finally show ?thesis by (simp add: power_int_minus)
qed

lemma fl64_0994_times_100: "\<lfloor>fl64 (8953156059212546 / 2 ^ 53 * 100)\<rfloor> = 99"
proof -
  have "fl64 (8953156059212546 / 2 ^ 53 * 100) =
          of_int (roundTiesToEven ((8953156059212546 / 2 ^ 53 * 100) / 2 powi (6 - 52))) * 2 powi (6 - 52)"
    by (rule fl64_eval) (simp_all add: power_int_minus)
  also have "roundTiesToEven ((8953156059212546 / 2 ^ 53 * 100) / 2 powi (6 - 52)) = 6994653171259802"
    by (simp add: roundTiesToEven_def power_int_minus)
  finally have "fl64 (8953156059212546 / 2 ^ 53 * 100) = 6994653171259802 / 2 ^ 46"
    by (simp only: power_int_minus) simp
  then have "\<lfloor>fl64 (8953156059212546 / 2 ^ 53 * 100)\<rfloor> = \<lfloor>6994653171259802 / 2 ^ 46 :: real\<rfloor>"
    by (simp only:)
  then show ?thesis by simp
qed

section \<open>The batch writer\<close>

subsection \<open>One attempt\<close>


lemma buildBatch_logs:
  "commitLog (snd (buildBatch e ds b w)) = commitLog w \<and>
   sleepLog (snd (buildBatch e ds b w)) = sleepLog w"
  by (induction ds arbitrary: b w) (auto simp: newDoc_def)

lemma buildBatch_ops:
  "length (fst (buildBatch e ds b w)) = length b + length ds"
  by (induction ds arbitrary: b w) (auto simp: newDoc_def)

lemma attemptWrite_outcome:
  "fst (attemptWrite e ds w) = commitOutcome e (length (commitLog w))"
  by (simp add: attemptWrite_def commit_def split: prod.splits) (metis buildBatch_logs snd_conv)

lemma attemptWrite_commitLog:
  "commitLog (snd (attemptWrite e ds w)) = commitLog w @ [fst (buildBatch e ds [] w)]"
  by (simp add: attemptWrite_def commit_def split: prod.splits) (metis buildBatch_logs snd_conv)

lemma attemptWrite_sleepLog:
  "sleepLog (snd (attemptWrite e ds w)) = sleepLog w"
  by (simp add: attemptWrite_def commit_def split: prod.splits) (metis buildBatch_logs snd_conv)

lemma writeLoop_all_fail:
  assumes "attempt < maxRetries"
    and "\<forall>k < nat (maxRetries - attempt). commitOutcome e (length (commitLog w) + k) \<noteq> None"
  shows "fst (writeLoop e ds maxRetries attempt w) =
           Inl (the (commitOutcome e (length (commitLog w) + nat (maxRetries - attempt) - 1))) \<and>
         length (commitLog (snd (writeLoop e ds maxRetries attempt w))) =
           length (commitLog w) + nat (maxRetries - attempt)"
  using assms
proof (induction e ds maxRetries attempt w rule: writeLoop.induct)
  case (1 e documents maxRetries attempt w)
  obtain r w1 where aw: "attemptWrite e documents w = (r, w1)" by (cases "attemptWrite e documents w")
  have r: "r = commitOutcome e (length (commitLog w))"
    using attemptWrite_outcome[of e documents w] aw by simp
  have len1: "length (commitLog w1) = Suc (length (commitLog w))"
    using attemptWrite_commitLog[of e documents w] aw by simp
  from "1.prems" have "commitOutcome e (length (commitLog w) + 0) \<noteq> None" by (metis zero_less_nat_eq diff_gt_0_iff_gt)
  then obtain err where err: "r = Some err" using r by auto
  show ?case
  proof (cases "attempt + 1 = maxRetries")
    case True
    then have "nat (maxRetries - attempt) = 1" by simp
    then show ?thesis using "1.prems" aw err r True len1
      by (subst writeLoop.simps, subst (2) writeLoop.simps) simp
  next
    case False
    let ?w2 = "sleep (backoffDelay (attempt + 1)) w1"
    have len2: "length (commitLog ?w2) = Suc (length (commitLog w))" using len1 by (simp add: sleep_def)
    have lt: "attempt + 1 < maxRetries" using False "1.prems"(1) by simp
    have n: "nat (maxRetries - attempt) = Suc (nat (maxRetries - (attempt + 1)))" using lt by simp
    have "\<forall>k<nat (maxRetries - (attempt + 1)). commitOutcome e (length (commitLog ?w2) + k) \<noteq> None"
    proof (intro allI impI)
      fix k assume "k < nat (maxRetries - (attempt + 1))"
      then have "Suc k < nat (maxRetries - attempt)" using n by simp
      then have "commitOutcome e (length (commitLog w) + Suc k) \<noteq> None" using "1.prems"(2) by blast
      then show "commitOutcome e (length (commitLog ?w2) + k) \<noteq> None" using len2 by simp
    qed
    from "1.IH"[OF "1.prems"(1) aw[symmetric] err False lt this]
    have IH: "fst (writeLoop e documents maxRetries (attempt + 1) ?w2) =
           Inl (the (commitOutcome e (length (commitLog ?w2) + nat (maxRetries - (attempt + 1)) - 1))) \<and>
         length (commitLog (snd (writeLoop e documents maxRetries (attempt + 1) ?w2))) =
           length (commitLog ?w2) + nat (maxRetries - (attempt + 1))" .
    have step: "writeLoop e documents maxRetries attempt w = writeLoop e documents maxRetries (attempt + 1) ?w2"
      using "1.prems"(1) aw err False by (subst writeLoop.simps) simp
    show ?thesis unfolding step using IH len2 n by simp
  qed
qed


lemma writeLoop_succeed_last:
  assumes "attempt < maxRetries"
    and "\<forall>k < nat (maxRetries - attempt) - 1. commitOutcome e (length (commitLog w) + k) \<noteq> None"
    and "commitOutcome e (length (commitLog w) + nat (maxRetries - attempt) - 1) = None"
  shows "fst (writeLoop e ds maxRetries attempt w) = Inr (length ds) \<and>
         length (commitLog (snd (writeLoop e ds maxRetries attempt w))) =
           length (commitLog w) + nat (maxRetries - attempt) \<and>
         sleepLog (snd (writeLoop e ds maxRetries attempt w)) =
           sleepLog w @ map (\<lambda>a. setTimeout_delay (backoffDelay a)) [attempt + 1..maxRetries - 1]"
  using assms
proof (induction e ds maxRetries attempt w rule: writeLoop.induct)
  case (1 e documents maxRetries attempt w)
  obtain r w1 where aw: "attemptWrite e documents w = (r, w1)" by (cases "attemptWrite e documents w")
  have r: "r = commitOutcome e (length (commitLog w))"
    using attemptWrite_outcome[of e documents w] aw by simp
  have len1: "length (commitLog w1) = Suc (length (commitLog w))"
    using attemptWrite_commitLog[of e documents w] aw by simp
  have sl1: "sleepLog w1 = sleepLog w"
    using attemptWrite_sleepLog[of e documents w] aw by simp
  show ?case
  proof (cases "attempt + 1 = maxRetries")
    case True
    then have n: "nat (maxRetries - attempt) = 1" by simp
    have "r = None" using "1.prems"(3) r n by simp
    moreover have "[attempt + 1..maxRetries - 1] = []" using True by simp
    ultimately show ?thesis using "1.prems"(1) aw len1 sl1 n
      by (subst writeLoop.simps, subst (2) writeLoop.simps, subst (3) writeLoop.simps) simp
  next
    case False
    let ?w2 = "sleep (backoffDelay (attempt + 1)) w1"
    have len2: "length (commitLog ?w2) = Suc (length (commitLog w))" using len1 by (simp add: sleep_def)
    have sl2: "sleepLog ?w2 = sleepLog w @ [setTimeout_delay (backoffDelay (attempt + 1))]"
      using sl1 by (simp add: sleep_def)
    have lt: "attempt + 1 < maxRetries" using False "1.prems"(1) by simp
    have n: "nat (maxRetries - attempt) = Suc (nat (maxRetries - (attempt + 1)))" using lt by simp
    have pos: "0 < nat (maxRetries - (attempt + 1))" using lt by simp
    have "commitOutcome e (length (commitLog w) + 0) \<noteq> None"
      using "1.prems"(2) n pos by (metis diff_Suc_1)
    then obtain err where err: "r = Some err" using r by auto
    have a: "\<forall>k<nat (maxRetries - (attempt + 1)) - 1. commitOutcome e (length (commitLog ?w2) + k) \<noteq> None"
    proof (intro allI impI)
      fix k assume "k < nat (maxRetries - (attempt + 1)) - 1"
      then have "Suc k < nat (maxRetries - attempt) - 1" using n by simp
      then have "commitOutcome e (length (commitLog w) + Suc k) \<noteq> None" using "1.prems"(2) by blast
      then show "commitOutcome e (length (commitLog ?w2) + k) \<noteq> None" using len2 by simp
    qed
    have b: "commitOutcome e (length (commitLog ?w2) + nat (maxRetries - (attempt + 1)) - 1) = None"
      using "1.prems"(3) len2 n pos by simp
    note IH = "1.IH"[OF "1.prems"(1) aw[symmetric] err False lt a b]
    have step: "writeLoop e documents maxRetries attempt w = writeLoop e documents maxRetries (attempt + 1) ?w2"
      using "1.prems"(1) aw err False by (subst writeLoop.simps) simp
    have up: "[attempt + 1..maxRetries - 1] = (attempt + 1) # [attempt + 1 + 1..maxRetries - 1]"
      using lt by (simp add: upto_rec1)
    show ?thesis unfolding step using IH len2 sl2 n up by simp
  qed
qed

lemma writeLoop_commitLog_mono:
  "length (commitLog w) \<le> length (commitLog (snd (writeLoop e ds maxRetries attempt w)))"
proof (induction e ds maxRetries attempt w rule: writeLoop.induct)
  case (1 e documents maxRetries attempt w)
  obtain r w1 where aw: "attemptWrite e documents w = (r, w1)" by (cases "attemptWrite e documents w")
  have len1: "length (commitLog w1) = Suc (length (commitLog w))"
    using attemptWrite_commitLog[of e documents w] aw by simp
  show ?case
  proof (cases "attempt < maxRetries \<and> r \<noteq> None \<and> attempt + 1 \<noteq> maxRetries")
    case True
    then obtain err where err: "r = Some err" by auto
    let ?w2 = "sleep (backoffDelay (attempt + 1)) w1"
    have step: "writeLoop e documents maxRetries attempt w = writeLoop e documents maxRetries (attempt + 1) ?w2"
      using True aw err by (subst writeLoop.simps) simp
    have "length (commitLog ?w2) \<le> length (commitLog (snd (writeLoop e documents maxRetries (attempt + 1) ?w2)))"
      using "1.IH"[OF _ aw[symmetric] err] True by simp
    then show ?thesis unfolding step using len1 by (simp add: sleep_def)
  next
    case False
    then show ?thesis using aw len1
      by (subst writeLoop.simps) (auto split: option.splits)
  qed
qed

lemma writeLoop_first_commit:
  assumes "attempt < maxRetries"
  shows "Suc (length (commitLog w)) \<le> length (commitLog (snd (writeLoop e ds maxRetries attempt w)))"
proof -
  obtain r w1 where aw: "attemptWrite e ds w = (r, w1)" by (cases "attemptWrite e ds w")
  have len1: "length (commitLog w1) = Suc (length (commitLog w))"
    using attemptWrite_commitLog[of e ds w] aw by simp
  show ?thesis
  proof (cases "r \<noteq> None \<and> attempt + 1 \<noteq> maxRetries")
    case True
    then obtain err where err: "r = Some err" by auto
    let ?w2 = "sleep (backoffDelay (attempt + 1)) w1"
    have step: "writeLoop e ds maxRetries attempt w = writeLoop e ds maxRetries (attempt + 1) ?w2"
      using True aw err assms by (subst writeLoop.simps) simp
    have "length (commitLog ?w2) \<le> length (commitLog (snd (writeLoop e ds maxRetries (attempt + 1) ?w2)))"
      by (rule writeLoop_commitLog_mono)
    then show ?thesis unfolding step using len1 by (simp add: sleep_def)
  next
    case False
    then show ?thesis using aw len1 assms
      by (subst writeLoop.simps) (auto split: option.splits)
  qed
qed

lemma writeLoop_returns:
  "fst (writeLoop e ds maxRetries attempt w) = Inr n \<Longrightarrow> n = length ds \<or> n = 0"
proof (induction e ds maxRetries attempt w rule: writeLoop.induct)
  case (1 e documents maxRetries attempt w)
  obtain r w1 where aw: "attemptWrite e documents w = (r, w1)" by (cases "attemptWrite e documents w")
  show ?case
  proof (cases "attempt < maxRetries \<and> r \<noteq> None \<and> attempt + 1 \<noteq> maxRetries")
    case True
    then obtain err where err: "r = Some err" by auto
    let ?w2 = "sleep (backoffDelay (attempt + 1)) w1"
    have step: "writeLoop e documents maxRetries attempt w = writeLoop e documents maxRetries (attempt + 1) ?w2"
      using True aw err by (subst writeLoop.simps) simp
    show ?thesis using "1.IH"[OF _ aw[symmetric] err] True "1.prems" unfolding step by simp
  next
    case False
    then show ?thesis using aw "1.prems"
      by (subst (asm) writeLoop.simps) (auto split: option.splits if_splits)
  qed
qed

lemma writeLoop_first_success:
  assumes "attempt < maxRetries" "commitOutcome e (length (commitLog w)) = None"
  shows "writeLoop e ds maxRetries attempt w = (Inr (length ds), snd (attemptWrite e ds w))"
proof -
  obtain r w1 where aw: "attemptWrite e ds w = (r, w1)" by (cases "attemptWrite e ds w")
  have "r = None" using attemptWrite_outcome[of e ds w] aw assms(2) by simp
  then show ?thesis using aw assms(1) by (subst writeLoop.simps) simp
qed

lemma writeLoop_succeed_at:
  assumes "0 < k" "int k \<le> maxRetries - attempt"
    and "\<forall>j < k - 1. commitOutcome e (length (commitLog w) + j) \<noteq> None"
    and "commitOutcome e (length (commitLog w) + k - 1) = None"
  shows "fst (writeLoop e ds maxRetries attempt w) = Inr (length ds) \<and>
         length (commitLog (snd (writeLoop e ds maxRetries attempt w))) = length (commitLog w) + k"
  using assms
proof (induction k arbitrary: attempt w)
  case 0
  then show ?case by simp
next
  case (Suc k)
  have lt: "attempt < maxRetries" using Suc.prems(2) by simp
  show ?case
  proof (cases "k = 0")
    case True
    then have "commitOutcome e (length (commitLog w)) = None" using Suc.prems(4) by simp
    then show ?thesis
      using writeLoop_first_success[OF lt, of e w ds] attemptWrite_commitLog[of e ds w] True
      by simp
  next
    case False
    obtain r w1 where aw: "attemptWrite e ds w = (r, w1)" by (cases "attemptWrite e ds w")
    have r: "r = commitOutcome e (length (commitLog w))"
      using attemptWrite_outcome[of e ds w] aw by simp
    have len1: "length (commitLog w1) = Suc (length (commitLog w))"
      using attemptWrite_commitLog[of e ds w] aw by simp
    have "commitOutcome e (length (commitLog w) + 0) \<noteq> None"
      using Suc.prems(3) False by (metis diff_Suc_1 neq0_conv)
    then obtain err where err: "r = Some err" using r by auto
    have ne: "attempt + 1 \<noteq> maxRetries" using Suc.prems(2) False by simp
    let ?w2 = "sleep (backoffDelay (attempt + 1)) w1"
    have len2: "length (commitLog ?w2) = Suc (length (commitLog w))"
      using len1 by (simp add: sleep_def)
    have step: "writeLoop e ds maxRetries attempt w = writeLoop e ds maxRetries (attempt + 1) ?w2"
      using lt aw err ne by (subst writeLoop.simps) simp
    have a: "\<forall>j < k - 1. commitOutcome e (length (commitLog ?w2) + j) \<noteq> None"
    proof (intro allI impI)
      fix j assume "j < k - 1"
      then have "Suc j < Suc k - 1" by simp
      then have "commitOutcome e (length (commitLog w) + Suc j) \<noteq> None" using Suc.prems(3) by blast
      then show "commitOutcome e (length (commitLog ?w2) + j) \<noteq> None" using len2 by simp
    qed
    have b: "commitOutcome e (length (commitLog ?w2) + k - 1) = None"
      using Suc.prems(4) len2 False by simp
    have "fst (writeLoop e ds maxRetries (attempt + 1) ?w2) = Inr (length ds) \<and>
          length (commitLog (snd (writeLoop e ds maxRetries (attempt + 1) ?w2))) =
            length (commitLog ?w2) + k"
      using Suc.IH[of "attempt + 1" ?w2] False Suc.prems(2) a b by simp
    then show ?thesis unfolding step using len2 by simp
  qed
qed

lemma writeLoop_empty_commitLog:
  "\<exists>n. commitLog (snd (writeLoop e [] maxRetries attempt w)) = commitLog w @ replicate n []"
proof (induction e "[] :: testDocument list" maxRetries attempt w rule: writeLoop.induct)
  case (1 e maxRetries attempt w)
  obtain r w1 where aw: "attemptWrite e [] w = (r, w1)" by (cases "attemptWrite e [] w")
  have log1: "commitLog w1 = commitLog w @ [[]]"
    using attemptWrite_commitLog[of e "[]" w] aw by simp
  show ?case
  proof (cases "attempt < maxRetries \<and> r \<noteq> None \<and> attempt + 1 \<noteq> maxRetries")
    case True
    then obtain err where err: "r = Some err" by auto
    let ?w2 = "sleep (backoffDelay (attempt + 1)) w1"
    have step: "writeLoop e [] maxRetries attempt w = writeLoop e [] maxRetries (attempt + 1) ?w2"
      using True aw err by (subst writeLoop.simps) simp
    obtain n where "commitLog (snd (writeLoop e [] maxRetries (attempt + 1) ?w2)) =
                      commitLog ?w2 @ replicate n []"
      using "1.hyps"[OF _ aw[symmetric] err] True by auto
    then have "commitLog (snd (writeLoop e [] maxRetries attempt w)) =
                 commitLog w @ replicate (Suc n) []"
      unfolding step using log1 by (simp add: sleep_def)
    then show ?thesis by blast
  next
    case False
    have "commitLog (snd (writeLoop e [] maxRetries attempt w)) = commitLog w @ replicate 0 [] \<or>
          commitLog (snd (writeLoop e [] maxRetries attempt w)) = commitLog w @ replicate 1 []"
      using False aw log1 by (subst writeLoop.simps, subst (2) writeLoop.simps) (auto split: option.splits)
    then show ?thesis by blast
  qed
qed

lemma writeLoop_empty_commits:
  assumes "length (commitLog (snd (writeLoop e [] maxRetries attempt w))) = length (commitLog w) + k"
  shows "commitLog (snd (writeLoop e [] maxRetries attempt w)) = commitLog w @ replicate k []"
proof -
  obtain n where n: "commitLog (snd (writeLoop e [] maxRetries attempt w)) = commitLog w @ replicate n []"
    using writeLoop_empty_commitLog by blast
  then have "n = k" using assms by simp
  then show ?thesis using n by simp
qed

lemma backoff_timer_small:
  assumes "1 \<le> a" "a \<le> 24"
  shows "setTimeout_delay (backoffDelay a) = 2 ^ nat a * 100"
proof -
  have "(2::int) ^ nat a \<le> 2 ^ 24" using assms by (intro power_increasing) simp_all
  then have "(2::int) ^ nat a * 100 \<le> 2147483647" by simp
  moreover have "1 \<le> (2::int) ^ nat a * 100"
  proof -
    have "(1::int) \<le> 2 ^ nat a" by simp
    then show ?thesis by linarith
  qed
  ultimately show ?thesis using assms by (simp add: setTimeout_delay_def backoffDelay_def)
qed

lemma backoff_timers_small:
  assumes "1 \<le> i" "j \<le> 24"
  shows "map (\<lambda>a. setTimeout_delay (backoffDelay a)) [i..j] = map (\<lambda>a. 2 ^ nat a * 100) [i..j]"
  using assms backoff_timer_small by (intro map_cong) auto

subsection \<open>The claims about the batch writer\<close>

text \<open>
  Claim C1. For a non-empty document list and \<open>maxRetries = N \<ge> 1\<close>, when each of the
  next \<open>N\<close> commits of the store is rejected, \<open>writeBatchWithRetry\<close> makes exactly \<open>N\<close>
  commit calls and throws the error of the last one, as it is.
\<close>

theorem writeBatchWithRetry_all_attempts_fail:
  assumes "documents \<noteq> []"
    and "1 \<le> maxRetries"
    and "\<forall>k < nat maxRetries. commitOutcome e (length (commitLog w) + k) \<noteq> None"
  shows "(\<exists>err. commitOutcome e (length (commitLog w) + nat maxRetries - 1) = Some err \<and>
                fst (writeBatchWithRetry e documents batchNumber maxRetries w) = Inl err) \<and>
         length (commitLog (snd (writeBatchWithRetry e documents batchNumber maxRetries w))) =
           length (commitLog w) + nat maxRetries"
proof -
  have "nat maxRetries - 1 < nat maxRetries" using assms(2) by simp
  then have "commitOutcome e (length (commitLog w) + (nat maxRetries - 1)) \<noteq> None"
    using assms(3) by blast
  moreover have "length (commitLog w) + (nat maxRetries - 1) = length (commitLog w) + nat maxRetries - 1"
    using assms(2) by simp
  ultimately obtain err where
    "commitOutcome e (length (commitLog w) + nat maxRetries - 1) = Some err" by auto
  then show ?thesis
    using writeLoop_all_fail[of 0 maxRetries e w documents] assms
    by (simp add: writeBatchWithRetry_def)
qed

text \<open>Two attempts against a store that rejects every commit.\<close>

theorem writeBatchWithRetry_all_attempts_fail_witness:
  "[sampleDoc] \<noteq> [] \<and> (1::int) \<le> 2 \<and>
   fst (writeBatchWithRetry envCommitFails [sampleDoc] 1 2 world0) = Inl (Error ''Persistent error'') \<and>
   length (commitLog (snd (writeBatchWithRetry envCommitFails [sampleDoc] 1 2 world0))) = 2"
  using writeBatchWithRetry_all_attempts_fail[of "[sampleDoc]" 2 envCommitFails world0 1]
  by (simp add: envCommitFails_def envOK_def world0_def)

text \<open>
  Claim C2, amended. For a non-empty document list and \<open>maxRetries = N\<close> with
  \<open>1 \<le> N \<le> 25\<close>, when the next \<open>N - 1\<close> commits are rejected and the \<open>N\<close>-th is accepted,
  \<open>writeBatchWithRetry\<close> returns the number of documents after exactly \<open>N\<close> commit calls,
  and the waits it has made are \<open>2 ^ attempt * 100\<close> milliseconds for
  \<open>attempt = 1, ..., N - 1\<close>, in this order. For a larger \<open>N\<close> the result and the number
  of commit calls are the same, and each wait is the duration of the timer that
  \<open>setTimeout\<close> starts for the delay \<open>2 ^ attempt * 100\<close>.
\<close>

theorem writeBatchWithRetry_succeeds_on_last_attempt:
  assumes "documents \<noteq> []"
    and "1 \<le> maxRetries"
    and "\<forall>k < nat maxRetries - 1. commitOutcome e (length (commitLog w) + k) \<noteq> None"
    and "commitOutcome e (length (commitLog w) + nat maxRetries - 1) = None"
  shows "fst (writeBatchWithRetry e documents batchNumber maxRetries w) = Inr (length documents) \<and>
         length (commitLog (snd (writeBatchWithRetry e documents batchNumber maxRetries w))) =
           length (commitLog w) + nat maxRetries \<and>
         sleepLog (snd (writeBatchWithRetry e documents batchNumber maxRetries w)) =
           sleepLog w @
             map (\<lambda>attempt. setTimeout_delay (backoffDelay attempt)) [1..maxRetries - 1] \<and>
         (maxRetries \<le> 25 \<longrightarrow>
            sleepLog (snd (writeBatchWithRetry e documents batchNumber maxRetries w)) =
              sleepLog w @ map (\<lambda>attempt. 2 ^ nat attempt * 100) [1..maxRetries - 1])"
proof -
  have g: "fst (writeLoop e documents maxRetries 0 w) = Inr (length documents) \<and>
         length (commitLog (snd (writeLoop e documents maxRetries 0 w))) =
           length (commitLog w) + nat (maxRetries - 0) \<and>
         sleepLog (snd (writeLoop e documents maxRetries 0 w)) =
           sleepLog w @ map (\<lambda>a. setTimeout_delay (backoffDelay a)) [0 + 1..maxRetries - 1]"
    by (rule writeLoop_succeed_last) (use assms in simp_all)
  have "maxRetries \<le> 25 \<longrightarrow>
          map (\<lambda>a. setTimeout_delay (backoffDelay a)) [1..maxRetries - 1] =
          map (\<lambda>a. 2 ^ nat a * 100) [1..maxRetries - 1]"
  proof
    assume "maxRetries \<le> 25"
    then show "map (\<lambda>a. setTimeout_delay (backoffDelay a)) [1..maxRetries - 1] =
          map (\<lambda>a. 2 ^ nat a * 100) [1..maxRetries - 1]"
      by (intro backoff_timers_small) simp_all
  qed
  then show ?thesis using g by (simp add: writeBatchWithRetry_def)
qed

text \<open>Three attempts, the first two rejected: two documents written, waits of 200 and 400 ms.\<close>

theorem writeBatchWithRetry_succeeds_on_last_attempt_witness:
  "[sampleDoc, sampleDoc] \<noteq> [] \<and> (1::int) \<le> 3 \<and> (3::int) \<le> 25 \<and>
   fst (writeBatchWithRetry envCommitFailsTwice [sampleDoc, sampleDoc] 0 3 world0) = Inr 2 \<and>
   length (commitLog (snd (writeBatchWithRetry envCommitFailsTwice [sampleDoc, sampleDoc] 0 3 world0))) = 3 \<and>
   sleepLog (snd (writeBatchWithRetry envCommitFailsTwice [sampleDoc, sampleDoc] 0 3 world0)) = [200, 400]"
proof -
  have c: "\<forall>k < nat 3 - 1. commitOutcome envCommitFailsTwice (length (commitLog world0) + k) \<noteq> None"
    by (simp add: envCommitFailsTwice_def envOK_def world0_def)
  have d: "commitOutcome envCommitFailsTwice (length (commitLog world0) + nat 3 - 1) = None"
    by (simp add: envCommitFailsTwice_def envOK_def world0_def)
  show ?thesis
    using writeBatchWithRetry_succeeds_on_last_attempt[of "[sampleDoc, sampleDoc]" 3
            envCommitFailsTwice world0 0, OF _ _ c d]
    by (simp add: world0_def upto.simps setTimeout_delay_def backoffDelay_def)
qed

text \<open>
  Claim C2 says that for every \<open>N\<close> the wait after the failed attempt \<open>attempt\<close> is
  \<open>2 ^ attempt * 100\<close> milliseconds. With \<open>N = 26\<close> and 25 rejected commits, the delay asked
  for after attempt 25 is 3355443200 ms, more than a timer takes, and the wait is 1 ms.
\<close>

theorem writeBatchWithRetry_wait_after_attempt_25:
  "fst (writeBatchWithRetry envCommitFails25 [sampleDoc] 0 26 world0) = Inr 1 \<and>
   length (commitLog (snd (writeBatchWithRetry envCommitFails25 [sampleDoc] 0 26 world0))) = 26 \<and>
   length (sleepLog (snd (writeBatchWithRetry envCommitFails25 [sampleDoc] 0 26 world0))) = 25 \<and>
   last (sleepLog (snd (writeBatchWithRetry envCommitFails25 [sampleDoc] 0 26 world0))) = 1 \<and>
   (2::int) ^ 25 * 100 = 3355443200"
proof -
  have g: "fst (writeLoop envCommitFails25 [sampleDoc] 26 0 world0) = Inr (length [sampleDoc]) \<and>
         length (commitLog (snd (writeLoop envCommitFails25 [sampleDoc] 26 0 world0))) =
           length (commitLog world0) + nat (26 - 0) \<and>
         sleepLog (snd (writeLoop envCommitFails25 [sampleDoc] 26 0 world0)) =
           sleepLog world0 @ map (\<lambda>a. setTimeout_delay (backoffDelay a)) [0 + 1..26 - 1]"
    by (rule writeLoop_succeed_last) (simp_all add: envCommitFails25_def envOK_def world0_def)
  have u: "[1..25::int] = [1..24] @ [25]" using upto_rec2[of 1 25] by simp
  have l: "length [1..25::int] = 25" by simp
  show ?thesis using g l
    by (simp add: writeBatchWithRetry_def world0_def u setTimeout_delay_def backoffDelay_def)
qed


text \<open>
  Claim C3, amended. With the empty document list and \<open>maxRetries = N \<ge> 1\<close>, for every
  batch number, \<open>writeBatchWithRetry\<close> commits a batch with no operation and retries it
  as it retries any other batch. When the commits are rejected on the first \<open>k - 1\<close>
  attempts and accepted on attempt \<open>k \<le> N\<close>, it returns 0 after exactly \<open>k\<close> commit calls;
  when all \<open>N\<close> commits are rejected, it makes \<open>N\<close> commit calls and throws the error of
  the last one.
\<close>

theorem writeBatchWithRetry_empty:
  assumes "1 \<le> maxRetries"
  shows "(\<forall>k. 0 < k \<and> int k \<le> maxRetries \<and>
              (\<forall>j < k - 1. commitOutcome e (length (commitLog w) + j) \<noteq> None) \<and>
              commitOutcome e (length (commitLog w) + k - 1) = None \<longrightarrow>
            fst (writeBatchWithRetry e [] batchNumber maxRetries w) = Inr 0 \<and>
            commitLog (snd (writeBatchWithRetry e [] batchNumber maxRetries w)) =
              commitLog w @ replicate k []) \<and>
         ((\<forall>j < nat maxRetries. commitOutcome e (length (commitLog w) + j) \<noteq> None) \<longrightarrow>
            (\<exists>err. commitOutcome e (length (commitLog w) + nat maxRetries - 1) = Some err \<and>
                   fst (writeBatchWithRetry e [] batchNumber maxRetries w) = Inl err) \<and>
            commitLog (snd (writeBatchWithRetry e [] batchNumber maxRetries w)) =
              commitLog w @ replicate (nat maxRetries) [])"
proof (intro conjI allI impI)
  fix k
  assume a: "0 < k \<and> int k \<le> maxRetries \<and>
              (\<forall>j < k - 1. commitOutcome e (length (commitLog w) + j) \<noteq> None) \<and>
              commitOutcome e (length (commitLog w) + k - 1) = None"
  have g: "fst (writeLoop e [] maxRetries 0 w) = Inr (length ([] :: testDocument list)) \<and>
         length (commitLog (snd (writeLoop e [] maxRetries 0 w))) = length (commitLog w) + k"
    by (rule writeLoop_succeed_at) (use a in simp_all)
  show "fst (writeBatchWithRetry e [] batchNumber maxRetries w) = Inr 0"
    using g by (simp add: writeBatchWithRetry_def)
  show "commitLog (snd (writeBatchWithRetry e [] batchNumber maxRetries w)) =
              commitLog w @ replicate k []"
    unfolding writeBatchWithRetry_def using g by (intro writeLoop_empty_commits) simp
next
  assume a: "\<forall>j < nat maxRetries. commitOutcome e (length (commitLog w) + j) \<noteq> None"
  have lt: "0 < maxRetries" using assms by simp
  have g: "fst (writeLoop e [] maxRetries 0 w) =
           Inl (the (commitOutcome e (length (commitLog w) + nat (maxRetries - 0) - 1))) \<and>
         length (commitLog (snd (writeLoop e [] maxRetries 0 w))) =
           length (commitLog w) + nat (maxRetries - 0)"
    by (rule writeLoop_all_fail) (use a lt in simp_all)
  have "nat maxRetries - 1 < nat maxRetries" using assms by simp
  then have "commitOutcome e (length (commitLog w) + (nat maxRetries - 1)) \<noteq> None"
    using a by blast
  moreover have "length (commitLog w) + (nat maxRetries - 1) = length (commitLog w) + nat maxRetries - 1"
    using assms by simp
  ultimately obtain err where
    err: "commitOutcome e (length (commitLog w) + nat maxRetries - 1) = Some err" by auto
  show "\<exists>err. commitOutcome e (length (commitLog w) + nat maxRetries - 1) = Some err \<and>
                   fst (writeBatchWithRetry e [] batchNumber maxRetries w) = Inl err"
    using g err by (simp add: writeBatchWithRetry_def)
  show "commitLog (snd (writeBatchWithRetry e [] batchNumber maxRetries w)) =
              commitLog w @ replicate (nat maxRetries) []"
    unfolding writeBatchWithRetry_def using g by (intro writeLoop_empty_commits) simp
qed

text \<open>
  Three attempts with the empty list: on a store that rejects the first two commits,
  and on a store that rejects them all.
\<close>

theorem writeBatchWithRetry_empty_witness:
  "(1::int) \<le> 3 \<and>
   fst (writeBatchWithRetry envCommitFailsTwice [] 4 3 world0) = Inr 0 \<and>
   commitLog (snd (writeBatchWithRetry envCommitFailsTwice [] 4 3 world0)) = [[], [], []] \<and>
   fst (writeBatchWithRetry envCommitFails [] 4 3 world0) = Inl (Error ''Persistent error'') \<and>
   commitLog (snd (writeBatchWithRetry envCommitFails [] 4 3 world0)) = [[], [], []]"
proof -
  have h: "(1::int) \<le> 3" by simp
  have s: "0 < (3::nat) \<and> int 3 \<le> 3 \<and>
           (\<forall>j < 3 - 1. commitOutcome envCommitFailsTwice (length (commitLog world0) + j) \<noteq> None) \<and>
           commitOutcome envCommitFailsTwice (length (commitLog world0) + 3 - 1) = None"
    by (simp add: envCommitFailsTwice_def envOK_def world0_def)
  have f: "\<forall>j < nat 3. commitOutcome envCommitFails (length (commitLog world0) + j) \<noteq> None"
    by (simp add: envCommitFails_def envOK_def)
  have a: "fst (writeBatchWithRetry envCommitFailsTwice [] 4 3 world0) = Inr 0 \<and>
           commitLog (snd (writeBatchWithRetry envCommitFailsTwice [] 4 3 world0)) =
             commitLog world0 @ replicate 3 []"
    using writeBatchWithRetry_empty[OF h, of envCommitFailsTwice world0 4] s by blast
  have b: "(\<exists>err. commitOutcome envCommitFails (length (commitLog world0) + nat 3 - 1) = Some err \<and>
                fst (writeBatchWithRetry envCommitFails [] 4 3 world0) = Inl err) \<and>
           commitLog (snd (writeBatchWithRetry envCommitFails [] 4 3 world0)) =
             commitLog world0 @ replicate (nat 3) []"
    using writeBatchWithRetry_empty[OF h, of envCommitFails world0 4] f by blast
  show ?thesis using a b
    by (simp add: world0_def envCommitFails_def envOK_def numeral_3_eq_3)
qed

text \<open>
  Claim C3 says that an empty document list returns 0 with no commit call. On a store
  that accepts every commit, the call with the empty list returns 0 after one commit
  call, of a batch with no operation; on a store that rejects every commit, the call
  with \<open>maxRetries = 1\<close> makes one commit call and throws.
\<close>

theorem writeBatchWithRetry_empty_commits_and_throws:
  "fst (writeBatchWithRetry envOK [] 7 3 world0) = Inr 0 \<and>
   commitLog world0 = [] \<and>
   commitLog (snd (writeBatchWithRetry envOK [] 7 3 world0)) = [[]] \<and>
   fst (writeBatchWithRetry envCommitFails [] 7 1 world0) = Inl (Error ''Persistent error'') \<and>
   commitLog (snd (writeBatchWithRetry envCommitFails [] 7 1 world0)) = [[]]"
  by (simp add: writeBatchWithRetry_def attemptWrite_def commit_def envCommitFails_def envOK_def
      world0_def)

section \<open>The document generator\<close>

lemma randomIds_length: "length (fst (randomIds e n w)) = n"
  by (induction n arbitrary: w) (simp_all add: case_prod_beta)

lemma randomIds_runId: "runId (snd (randomIds e n w)) = runId w"
  by (induction n arbitrary: w) (simp_all add: case_prod_beta randomId_def Math_random_def)

lemma generateDocument_randomNumber:
  "randomNumber (fst (generateDocument e w)) = \<lfloor>fl64 (randomSrc e (randomCalls w) * 1000)\<rfloor>"
  by (simp add: generateDocument_def Timestamp_now_def Math_random_def randomId_def case_prod_beta)

lemma generateDocument_field2:
  "field2 (nestedObject (fst (generateDocument e w))) =
     \<lfloor>fl64 (randomSrc e (randomCalls w + 3) * 100)\<rfloor>"
  by (simp add: generateDocument_def Timestamp_now_def Math_random_def randomId_def
      numeral_3_eq_3 case_prod_beta)

lemma generateDocument_arrayField:
  "length (arrayField (fst (generateDocument e w))) = 5"
  by (simp add: generateDocument_def case_prod_beta randomIds_length del: randomIds.simps)

lemma generateDocument_runId:
  "testRunId (metadata (fst (generateDocument e w))) = runId w \<and>
   runId (snd (generateDocument e w)) = runId w"
  by (simp add: generateDocument_def Timestamp_now_def Math_random_def randomId_def
      case_prod_beta randomIds_runId del: randomIds.simps)

lemma generateDocuments_length: "length (fst (generateDocuments e n w)) = n"
  by (induction n arbitrary: w) (simp_all add: case_prod_beta)

lemma generateDocuments_runId: "runId (snd (generateDocuments e n w)) = runId w"
  by (induction n arbitrary: w) (simp_all add: case_prod_beta generateDocument_runId)

subsection \<open>No operation assigns the run identifier\<close>

lemma buildBatch_runId: "runId (snd (buildBatch e ds b w)) = runId w"
  by (induction ds arbitrary: b w) (auto simp: newDoc_def)

lemma attemptWrite_runId: "runId (snd (attemptWrite e ds w)) = runId w"
  by (simp add: attemptWrite_def commit_def case_prod_beta buildBatch_runId)

lemma writeLoop_runId: "runId (snd (writeLoop e ds maxRetries attempt w)) = runId w"
proof (induction e ds maxRetries attempt w rule: writeLoop.induct)
  case (1 e documents maxRetries attempt w)
  obtain r w1 where aw: "attemptWrite e documents w = (r, w1)" by (cases "attemptWrite e documents w")
  have r1: "runId w1 = runId w" using attemptWrite_runId[of e documents w] aw by simp
  show ?case
  proof (cases "attempt < maxRetries \<and> r \<noteq> None \<and> attempt + 1 \<noteq> maxRetries")
    case True
    then obtain err where err: "r = Some err" by auto
    let ?w2 = "sleep (backoffDelay (attempt + 1)) w1"
    have step: "writeLoop e documents maxRetries attempt w = writeLoop e documents maxRetries (attempt + 1) ?w2"
      using True aw err by (subst writeLoop.simps) simp
    have "runId (snd (writeLoop e documents maxRetries (attempt + 1) ?w2)) = runId ?w2"
      using "1.IH"[OF _ aw[symmetric] err] True by simp
    then show ?thesis unfolding step using r1 by (simp add: sleep_def)
  next
    case False
    then show ?thesis using aw r1
      by (subst writeLoop.simps) (auto split: option.splits)
  qed
qed

lemma fetchCounts_runId: "runId (snd (fetchCounts e cfg path w)) = runId w"
  by (simp add: fetchCounts_def getFirestoreCount_def getBigQueryCount_def)

lemma createReport_runId: "runId (snd (createReport e cfg path w)) = runId w"
  by (simp add: createReport_def Timestamp_now_def newDoc_def docSet_def case_prod_beta
      fetchCounts_runId split: sum.splits option.splits prod.splits)


lemma finalizeCatch_runId: "runId (snd (finalizeCatch e reportId err w)) = runId w"
  by (simp add: finalizeCatch_def Timestamp_now_def docUpdate_def
      split: sum.splits option.splits)

lemma finalizeReport_runId: "runId (snd (finalizeReport e cfg reportId path w)) = runId w"
proof (cases "fetchCounts e cfg path w")
  case (Pair r w1)
  have w1: "runId w1 = runId w" using fetchCounts_runId[of e cfg path w] Pair by simp
  show ?thesis
  proof (cases r)
    case (Inl err)
    then show ?thesis using Pair w1 by (simp add: finalizeReport_def finalizeCatch_runId)
  next
    case (Inr xy)
    then show ?thesis using Pair w1
      by (cases xy)
         (simp add: finalizeReport_def finalizeCatch_runId Timestamp_now_def docUpdate_def
            split: option.splits)
  qed
qed

lemma cleanupLoop_runId:
  assumes "cleanupLoop e threshold totalDeleted w = Some y"
  shows "runId (snd y) = runId w"
proof (rule cleanupLoop.raw_induct[where P = "\<lambda>e threshold totalDeleted w y. runId (snd y) = runId w",
        OF _ assms])
  fix f e threshold totalDeleted w y
  assume IH: "\<And>e threshold totalDeleted w y.
                f e threshold totalDeleted w = Some y \<Longrightarrow> runId (snd y) = runId w"
    and body: "(case runQuery e CONFIG_collections_stressTest threshold 500 w of
        (Inl err, w1) \<Rightarrow> Some (Inl err, w1)
      | (Inr snapshot, w1) \<Rightarrow>
          (if snapshot = [] then Some (Inr totalDeleted, w1)
           else (case commit e (map DeleteOp snapshot) w1 of
                   (Some err, w2) \<Rightarrow> Some (Inl err, w2)
                 | (None, w2) \<Rightarrow>
                     (if length snapshot < 500
                      then Some (Inr (totalDeleted + length snapshot), w2)
                      else f e threshold (totalDeleted + length snapshot) w2)))) = Some y"
  show "runId (snd y) = runId w"
    using body IH
    by (auto simp: runQuery_def commit_def split: sum.splits if_splits option.splits prod.splits)
qed

lemma cleanupOldDocuments_runId:
  assumes "cleanupOldDocuments e w = Some y"
  shows "runId (snd y) = runId w"
proof -
  have "cleanupLoop e (clock e (clockReads w) - CONFIG_cleanupThresholdHours * 60 * 60 * 1000) 0
          (snd (Timestamp_now e w)) = Some y"
    using assms by (simp add: cleanupOldDocuments_def Timestamp_now_def)
  then have "runId (snd y) = runId (snd (Timestamp_now e w))" by (rule cleanupLoop_runId)
  then show ?thesis by (simp add: Timestamp_now_def)
qed

lemma dispatchLoop_runId:
  "runId (snd (dispatchLoop e T B n i batches w)) = runId w"
proof (induction e T B n i batches w rule: dispatchLoop.induct)
  case (1 e T B n i batches w)
  obtain documents w1 where g: "generateDocuments e (nat (docsInThisBatch T B n i)) w = (documents, w1)"
    by (cases "generateDocuments e (nat (docsInThisBatch T B n i)) w")
  have w1: "runId w1 = runId w"
    using generateDocuments_runId[of e "nat (docsInThisBatch T B n i)" w] g by simp
  show ?case
  proof (cases "i < n")
    case True
    have step: "dispatchLoop e T B n i batches w = dispatchLoop e T B n (i + 1) (batches @ [(documents, i)]) w1"
      using True g by (subst dispatchLoop.simps) simp
    show ?thesis unfolding step using "1.IH"[OF True g[symmetric]] w1 by simp
  next
    case False
    then show ?thesis by (subst dispatchLoop.simps) simp
  qed
qed

lemma perform_runId:
  assumes "perform e x w = Some w'"
  shows "runId w' = runId w"
proof (cases x)
  case GenerateDocument
  then show ?thesis using assms generateDocument_runId[of e w] by auto
next
  case (GenerateDocuments n)
  then show ?thesis using assms generateDocuments_runId[of e n w] by auto
next
  case (WriteBatchWithRetry documents batchNumber maxRetries)
  then have "w' = snd (writeLoop e documents maxRetries 0 w)"
    using assms by (simp add: writeBatchWithRetry_def del: writeLoop.simps)
  then show ?thesis by (simp only: writeLoop_runId)
next
  case (CreateReport cfg path)
  then show ?thesis using assms createReport_runId[of e cfg path w] by auto
next
  case (FinalizeReport cfg reportId path)
  then show ?thesis using assms finalizeReport_runId[of e cfg reportId path w] by auto
next
  case CleanupOldDocuments
  then obtain y where "cleanupOldDocuments e w = Some y" "w' = snd y" using assms by auto
  then show ?thesis using cleanupOldDocuments_runId by blast
next
  case (DispatchBatches T B)
  then have "w' = snd (dispatchLoop e T B (numberOfBatches T B) 0 [] w)"
    using assms by (simp add: dispatchBatches_def del: dispatchLoop.simps)
  then show ?thesis by (simp only: dispatchLoop_runId)
qed

lemma lifetime_runId:
  assumes "lifetime e xs w = Some w'"
  shows "runId w' = runId w"
  using assms
proof (induction xs arbitrary: w)
  case Nil
  then show ?case by simp
next
  case (Cons x xs)
  then obtain w1 where p: "perform e x w = Some w1" and l: "lifetime e xs w1 = Some w'"
    by (auto split: option.splits)
  show ?case using Cons.IH[OF l] perform_runId[OF p] by simp
qed

subsection \<open>The claim about the generator\<close>

text \<open>
  Claim C10. With a random source whose values are doubles in \<open>[0, 1)\<close>, every record
  that the generator returns, from whatever state, has \<open>randomNumber\<close> in \<open>[0, 1000)\<close>,
  \<open>nestedObject.field2\<close> in \<open>[0, 100)\<close> and an \<open>arrayField\<close> of exactly 5 elements; and a
  record generated at any later point of the lifetime of the process, whatever
  operations have run in between, carries the same \<open>metadata.testRunId\<close>.
\<close>

theorem generateDocument_ranges_and_run_id:
  assumes "\<forall>k. isDouble (randomSrc e k) \<and> 0 \<le> randomSrc e k \<and> randomSrc e k < 1"
    and "lifetime e xs w = Some w'"
  shows "0 \<le> randomNumber (fst (generateDocument e w')) \<and>
         randomNumber (fst (generateDocument e w')) < 1000 \<and>
         0 \<le> field2 (nestedObject (fst (generateDocument e w'))) \<and>
         field2 (nestedObject (fst (generateDocument e w'))) < 100 \<and>
         length (arrayField (fst (generateDocument e w'))) = 5 \<and>
         testRunId (metadata (fst (generateDocument e w'))) =
           testRunId (metadata (fst (generateDocument e w)))"
proof -
  have a: "0 \<le> randomNumber (fst (generateDocument e w')) \<and>
           randomNumber (fst (generateDocument e w')) < 1000"
    unfolding generateDocument_randomNumber
    by (rule floor_fl64_times_1000) (use assms(1) in simp_all)
  have b: "0 \<le> field2 (nestedObject (fst (generateDocument e w'))) \<and>
           field2 (nestedObject (fst (generateDocument e w'))) < 100"
    unfolding generateDocument_field2
    by (rule floor_fl64_times_100) (use assms(1) in simp_all)
  have c: "length (arrayField (fst (generateDocument e w'))) = 5"
    by (rule generateDocument_arrayField)
  have d: "testRunId (metadata (fst (generateDocument e w'))) =
           testRunId (metadata (fst (generateDocument e w)))"
    using lifetime_runId[OF assms(2)] generateDocument_runId[of e w] generateDocument_runId[of e w']
    by simp
  show ?thesis using a b c d by blast
qed

text \<open>
  A record, then a batch written, then two more records, then another record, with the
  random source of \<open>envOK\<close>: the code computes \<open>0.994 * 1000\<close> as 994 and \<open>0.994 * 100\<close> as
  a double between 99 and 100.
\<close>

theorem generateDocument_ranges_and_run_id_witness:
  "(\<forall>k. isDouble (randomSrc envOK k) \<and> 0 \<le> randomSrc envOK k \<and> randomSrc envOK k < 1) \<and>
   lifetime envOK [GenerateDocument, WriteBatchWithRetry [sampleDoc] 0 3, GenerateDocuments 2] world0 =
     Some (snd (generateDocuments envOK 2
            (snd (writeBatchWithRetry envOK [sampleDoc] 0 3 (snd (generateDocument envOK world0)))))) \<and>
   randomNumber (fst (generateDocument envOK world0)) = 994 \<and>
   field2 (nestedObject (fst (generateDocument envOK world0))) = 99 \<and>
   length (arrayField (fst (generateDocument envOK
     (snd (generateDocuments envOK 2
            (snd (writeBatchWithRetry envOK [sampleDoc] 0 3 (snd (generateDocument envOK world0))))))))) = 5 \<and>
   testRunId (metadata (fst (generateDocument envOK
     (snd (generateDocuments envOK 2
            (snd (writeBatchWithRetry envOK [sampleDoc] 0 3 (snd (generateDocument envOK world0))))))))) =
     testRunId (metadata (fst (generateDocument envOK world0)))"
proof -
  let ?w' = "snd (generateDocuments envOK 2
            (snd (writeBatchWithRetry envOK [sampleDoc] 0 3 (snd (generateDocument envOK world0)))))"
  have r: "\<forall>k. isDouble (randomSrc envOK k) \<and> 0 \<le> randomSrc envOK k \<and> randomSrc envOK k < 1"
    using isDouble_0994 by (simp add: envOK_def)
  have l: "lifetime envOK [GenerateDocument, WriteBatchWithRetry [sampleDoc] 0 3, GenerateDocuments 2]
             world0 = Some ?w'"
    by simp
  have v: "randomNumber (fst (generateDocument envOK world0)) = 994 \<and>
           field2 (nestedObject (fst (generateDocument envOK world0))) = 99"
    using fl64_0994_times_1000 fl64_0994_times_100
    by (simp add: generateDocument_randomNumber generateDocument_field2 envOK_def)
  show ?thesis
    using generateDocument_ranges_and_run_id[OF r l] r l v by blast
qed

section \<open>The batches of the orchestrator\<close>

lemma numberOfBatches_bounds:
  assumes "1 \<le> T" "1 \<le> B"
  shows "1 \<le> numberOfBatches T B \<and> (numberOfBatches T B - 1) * B < T \<and> T \<le> numberOfBatches T B * B"
proof -
  let ?n = "numberOfBatches T B"
  have Bpos: "0 < real_of_int B" using assms by simp
  have q: "0 < real_of_int T / real_of_int B" using assms by simp
  have n1: "1 \<le> ?n" unfolding numberOfBatches_def using q by linarith
  have "real_of_int T / real_of_int B \<le> of_int ?n" unfolding numberOfBatches_def by (rule le_of_int_ceiling)
  then have "real_of_int T \<le> of_int ?n * real_of_int B" using Bpos by (simp add: pos_divide_le_eq)
  then have up: "T \<le> ?n * B" by (metis of_int_le_iff of_int_mult)
  have "of_int ?n - 1 < real_of_int T / real_of_int B" unfolding numberOfBatches_def by linarith
  then have "(of_int ?n - 1) * real_of_int B < real_of_int T" using Bpos by (simp add: pos_less_divide_eq)
  then have "real_of_int ((?n - 1) * B) < real_of_int T" by simp
  then have lo: "(?n - 1) * B < T" by (simp only: of_int_less_iff)
  show ?thesis using n1 lo up by simp
qed

lemma dispatchLoop_sizes:
  assumes "i < n"
  shows "batchSizes (fst (dispatchLoop e T B n i batches w)) =
           batchSizes batches @ replicate (nat (n - 1 - i)) (nat B) @ [nat (T - (n - 1) * B)]"
  using assms
proof (induction e T B n i batches w rule: dispatchLoop.induct)
  case (1 e T B n i batches w)
  obtain documents w1 where g: "generateDocuments e (nat (docsInThisBatch T B n i)) w = (documents, w1)"
    by (cases "generateDocuments e (nat (docsInThisBatch T B n i)) w")
  have len: "length documents = nat (docsInThisBatch T B n i)"
    using generateDocuments_length[of e "nat (docsInThisBatch T B n i)" w] g by simp
  have step: "dispatchLoop e T B n i batches w = dispatchLoop e T B n (i + 1) (batches @ [(documents, i)]) w1"
    using "1.prems" g by (subst dispatchLoop.simps) simp
  show ?case
  proof (cases "i = n - 1")
    case True
    then have "\<not> i + 1 < n" by simp
    then have "dispatchLoop e T B n (i + 1) (batches @ [(documents, i)]) w1 = (batches @ [(documents, i)], w1)"
      by (subst dispatchLoop.simps) simp
    then show ?thesis unfolding step using True len
      by (simp add: batchSizes_def docsInThisBatch_def)
  next
    case False
    then have lt: "i + 1 < n" using "1.prems" by simp
    have r: "nat (n - 1 - i) = Suc (nat (n - 1 - (i + 1)))" using lt by simp
    have d: "docsInThisBatch T B n i = B" using False by (simp add: docsInThisBatch_def)
    show ?thesis unfolding step
      using "1.IH"[OF "1.prems" g[symmetric] lt] len d
      by (simp add: batchSizes_def r)
  qed
qed

lemma dispatchBatches_sizes:
  assumes "1 \<le> T" "1 \<le> B"
  shows "batchSizes (fst (dispatchBatches e T B w)) =
           replicate (nat (numberOfBatches T B) - 1) (nat B) @
           [nat (T - (numberOfBatches T B - 1) * B)]"
proof -
  have "0 < numberOfBatches T B" using numberOfBatches_bounds[OF assms] by simp
  then show ?thesis
    using dispatchLoop_sizes[of 0 "numberOfBatches T B" e T B "[]" w]
    by (simp add: dispatchBatches_def batchSizes_def nat_diff_distrib)
qed

text \<open>
  Claim C9. For a total of \<open>T \<ge> 1\<close> documents and a batch size \<open>B \<ge> 1\<close>, the loop of the
  orchestrator dispatches exactly \<open>\<lceil>T / B\<rceil>\<close> batches; every batch but the last holds
  exactly \<open>B\<close> documents, the last holds \<open>T - (\<lceil>T / B\<rceil> - 1) * B\<close>; no batch holds more
  than \<open>B\<close>, and together they hold \<open>T\<close>.
\<close>

theorem dispatchBatches_batch_sizes:
  assumes "1 \<le> T" "1 \<le> B"
  shows "length (fst (dispatchBatches e T B w)) = nat \<lceil>real_of_int T / real_of_int B\<rceil> \<and>
         (\<forall>k. Suc k < length (fst (dispatchBatches e T B w)) \<longrightarrow>
              int (batchSizes (fst (dispatchBatches e T B w)) ! k) = B) \<and>
         int (last (batchSizes (fst (dispatchBatches e T B w)))) =
           T - (\<lceil>real_of_int T / real_of_int B\<rceil> - 1) * B \<and>
         (\<forall>s \<in> set (batchSizes (fst (dispatchBatches e T B w))). int s \<le> B) \<and>
         int (sum_list (batchSizes (fst (dispatchBatches e T B w)))) = T"
proof -
  let ?n = "numberOfBatches T B"
  let ?sizes = "batchSizes (fst (dispatchBatches e T B w))"
  let ?rest = "T - (?n - 1) * B"
  have nb: "1 \<le> ?n" "(?n - 1) * B < T" "T \<le> ?n * B"
    using numberOfBatches_bounds[OF assms] by simp_all
  have sz: "?sizes = replicate (nat ?n - 1) (nat B) @ [nat ?rest]"
    by (rule dispatchBatches_sizes[OF assms])
  have rest_pos: "0 < ?rest" using nb(2) by simp
  have rest_le: "?rest \<le> B" using nb(3) by (simp add: algebra_simps)
  have n_def: "?n = \<lceil>real_of_int T / real_of_int B\<rceil>" by (simp add: numberOfBatches_def)
  have len: "length (fst (dispatchBatches e T B w)) = nat ?n"
  proof -
    have "length ?sizes = nat ?n" unfolding sz using nb(1) by simp
    then show ?thesis by (simp add: batchSizes_def)
  qed
  have full: "\<forall>k. Suc k < length (fst (dispatchBatches e T B w)) \<longrightarrow> int (?sizes ! k) = B"
  proof (intro allI impI)
    fix k assume "Suc k < length (fst (dispatchBatches e T B w))"
    then have "k < nat ?n - 1" using len by simp
    then show "int (?sizes ! k) = B" unfolding sz using assms(2) by (simp add: nth_append)
  qed
  have lst: "int (last ?sizes) = ?rest" unfolding sz using rest_pos by simp
  have bound: "\<forall>s \<in> set ?sizes. int s \<le> B"
    unfolding sz using rest_le rest_pos assms(2) by auto
  have "int (sum_list ?sizes) = int (nat ?n - 1) * B + ?rest"
    unfolding sz using rest_pos assms(2) by (simp add: sum_list_replicate)
  also have "int (nat ?n - 1) = ?n - 1" using nb(1) by simp
  finally have total: "int (sum_list ?sizes) = T" by simp
  show ?thesis using len full lst bound total unfolding n_def by blast
qed

text \<open>The configured run: 5000 documents in batches of 450 are 11 full batches and one of 50.\<close>

theorem dispatchBatches_batch_sizes_witness:
  "(1::int) \<le> 5000 \<and> (1::int) \<le> 450 \<and>
   length (fst (dispatchBatches envOK CONFIG_write_totalDocuments CONFIG_write_batchSize world0)) = 12 \<and>
   int (batchSizes (fst (dispatchBatches envOK CONFIG_write_totalDocuments CONFIG_write_batchSize world0)) ! 0) = 450 \<and>
   int (last (batchSizes (fst (dispatchBatches envOK CONFIG_write_totalDocuments CONFIG_write_batchSize world0)))) = 50 \<and>
   int (sum_list (batchSizes (fst (dispatchBatches envOK CONFIG_write_totalDocuments CONFIG_write_batchSize world0)))) = 5000"
proof -
  have c: "\<lceil>real_of_int 5000 / real_of_int 450\<rceil> = 12" by simp
  show ?thesis
    using dispatchBatches_batch_sizes[of 5000 450 envOK world0] c
    by (simp add: CONFIG_write_totalDocuments_def CONFIG_write_batchSize_def)
qed

section \<open>The cleanup loop\<close>

subsection \<open>One page\<close>

lemma cleanupLoop_query_fails:
  assumes "queryOutcome e (length (queryLog w)) = Inl err"
  shows "cleanupLoop e threshold totalDeleted w =
           Some (Inl err, w\<lparr>queryLog := queryLog w @ [(CONFIG_collections_stressTest, threshold, 500)]\<rparr>)"
  using assms by (subst cleanupLoop.simps) (simp add: runQuery_def)

lemma cleanupLoop_empty_page:
  assumes "queryOutcome e (length (queryLog w)) = Inr []"
  shows "cleanupLoop e threshold totalDeleted w =
           Some (Inr totalDeleted, w\<lparr>queryLog := queryLog w @ [(CONFIG_collections_stressTest, threshold, 500)]\<rparr>)"
  using assms by (subst cleanupLoop.simps) (simp add: runQuery_def)

lemma cleanupLoop_commit_fails:
  assumes "queryOutcome e (length (queryLog w)) = Inr p" "p \<noteq> []" "length p \<le> 500"
    and "commitOutcome e (length (commitLog w)) = Some err"
  shows "cleanupLoop e threshold totalDeleted w =
           Some (Inl err, w\<lparr>queryLog := queryLog w @ [(CONFIG_collections_stressTest, threshold, 500)],
                            commitLog := commitLog w @ [map DeleteOp p]\<rparr>)"
  using assms by (subst cleanupLoop.simps) (simp add: runQuery_def commit_def)

lemma cleanupLoop_short_page:
  assumes "queryOutcome e (length (queryLog w)) = Inr p" "p \<noteq> []" "length p < 500"
    and "commitOutcome e (length (commitLog w)) = None"
  shows "cleanupLoop e threshold totalDeleted w =
           Some (Inr (totalDeleted + length p),
                 w\<lparr>queryLog := queryLog w @ [(CONFIG_collections_stressTest, threshold, 500)],
                   commitLog := commitLog w @ [map DeleteOp p]\<rparr>)"
  using assms by (subst cleanupLoop.simps) (simp add: runQuery_def commit_def)

lemma cleanupLoop_full_page:
  assumes "queryOutcome e (length (queryLog w)) = Inr p" "length p = 500"
    and "commitOutcome e (length (commitLog w)) = None"
  shows "cleanupLoop e threshold totalDeleted w =
           cleanupLoop e threshold (totalDeleted + 500)
             (w\<lparr>queryLog := queryLog w @ [(CONFIG_collections_stressTest, threshold, 500)],
               commitLog := commitLog w @ [map DeleteOp p]\<rparr>)"
proof -
  have "p \<noteq> []" using assms(2) by auto
  then show ?thesis using assms by (subst cleanupLoop.simps) (simp add: runQuery_def commit_def)
qed

subsection \<open>The claims about the cleanup loop\<close>

text \<open>
  Claim C4, amended. When the first two queries of the cleanup loop answer pages of
  sizes 500 and 300 and the two delete commits are accepted, the loop reports a total of
  800 after exactly 2 delete commits, one for each page, and exactly 2 query calls: the
  short second page ends the loop, and no third query is made.
\<close>

theorem cleanup_pages_500_300:
  assumes "queryOutcome e (length (queryLog w)) = Inr p1" "length p1 = 500"
    and "queryOutcome e (length (queryLog w) + 1) = Inr p2" "length p2 = 300"
    and "commitOutcome e (length (commitLog w)) = None"
    and "commitOutcome e (length (commitLog w) + 1) = None"
  shows "\<exists>w'. cleanupOldDocuments e w = Some (Inr 800, w') \<and>
              commitLog w' = commitLog w @ [map DeleteOp p1, map DeleteOp p2] \<and>
              length (queryLog w') = length (queryLog w) + 2"
proof -
  let ?th = "clock e (clockReads w) - CONFIG_cleanupThresholdHours * 60 * 60 * 1000"
  let ?q = "(CONFIG_collections_stressTest, ?th, 500::nat)"
  let ?w1 = "w\<lparr>clockReads := Suc (clockReads w)\<rparr>"
  let ?w2 = "?w1\<lparr>queryLog := queryLog ?w1 @ [?q], commitLog := commitLog ?w1 @ [map DeleteOp p1]\<rparr>"
  let ?w3 = "?w2\<lparr>queryLog := queryLog ?w2 @ [?q], commitLog := commitLog ?w2 @ [map DeleteOp p2]\<rparr>"
  have s0: "cleanupOldDocuments e w = cleanupLoop e ?th 0 ?w1"
    by (simp add: cleanupOldDocuments_def Timestamp_now_def)
  have s1: "cleanupLoop e ?th 0 ?w1 = cleanupLoop e ?th (0 + 500) ?w2"
    by (rule cleanupLoop_full_page[where p = p1]) (use assms in simp_all)
  have p2: "p2 \<noteq> []" using assms(4) by auto
  have s2: "cleanupLoop e ?th (0 + 500) ?w2 = Some (Inr (0 + 500 + length p2), ?w3)"
    by (rule cleanupLoop_short_page) (use assms p2 in simp_all)
  have "cleanupOldDocuments e w = Some (Inr 800, ?w3)"
    using s0 s1 s2 assms(4) by simp
  then show ?thesis by simp
qed

text \<open>The store that would answer pages of 500, 300 and 0 documents.\<close>

theorem cleanup_pages_500_300_witness:
  "map_option fst (cleanupOldDocuments envPages_500_300_0 world0) = Some (Inr 800) \<and>
   map_option (commitCalls \<circ> snd) (cleanupOldDocuments envPages_500_300_0 world0) = Some 2 \<and>
   map_option (length \<circ> queryLog \<circ> snd) (cleanupOldDocuments envPages_500_300_0 world0) = Some 2"
proof -
  have "\<exists>w'. cleanupOldDocuments envPages_500_300_0 world0 = Some (Inr 800, w') \<and>
              commitLog w' = commitLog world0 @
                 [map DeleteOp (replicate 500 oldDoc), map DeleteOp (replicate 300 oldDoc)] \<and>
              length (queryLog w') = length (queryLog world0) + 2"
    by (rule cleanup_pages_500_300) (simp_all add: envPages_500_300_0_def envOK_def world0_def)
  then show ?thesis by (auto simp: commitCalls_def world0_def)
qed

text \<open>
  Claim C4 says that against pages of sizes 500, 300 and 0 the loop makes exactly 3 query
  calls. Against this store the total is 800 and the loop has made 2 query calls.
\<close>

theorem cleanup_pages_500_300_0_two_queries:
  "map_option fst (cleanupOldDocuments envPages_500_300_0 world0) = Some (Inr 800) \<and>
   map_option (queryCalls \<circ> snd) (cleanupOldDocuments envPages_500_300_0 world0) = Some 2"
proof -
  let ?e = envPages_500_300_0
  let ?th = "clock ?e (clockReads world0) - CONFIG_cleanupThresholdHours * 60 * 60 * 1000"
  let ?q = "(CONFIG_collections_stressTest, ?th, 500::nat)"
  let ?w1 = "world0\<lparr>clockReads := Suc (clockReads world0)\<rparr>"
  let ?w2 = "?w1\<lparr>queryLog := queryLog ?w1 @ [?q],
                  commitLog := commitLog ?w1 @ [map DeleteOp (replicate 500 oldDoc)]\<rparr>"
  let ?w3 = "?w2\<lparr>queryLog := queryLog ?w2 @ [?q],
                  commitLog := commitLog ?w2 @ [map DeleteOp (replicate 300 oldDoc)]\<rparr>"
  have s0: "cleanupOldDocuments ?e world0 = cleanupLoop ?e ?th 0 ?w1"
    by (simp add: cleanupOldDocuments_def Timestamp_now_def)
  have s1: "cleanupLoop ?e ?th 0 ?w1 = cleanupLoop ?e ?th (0 + 500) ?w2"
    by (rule cleanupLoop_full_page) (simp_all add: envPages_500_300_0_def envOK_def world0_def)
  have s2: "cleanupLoop ?e ?th (0 + 500) ?w2 =
              Some (Inr (0 + 500 + length (replicate 300 oldDoc)), ?w3)"
    by (rule cleanupLoop_short_page) (simp_all add: envPages_500_300_0_def envOK_def world0_def)
  have "cleanupOldDocuments ?e world0 = Some (Inr 800, ?w3)"
    using s0 s1 s2 by simp
  then show ?thesis by (simp add: queryCalls_def world0_def)
qed


text \<open>
  Claim C5. When the first query answers a page of 300 documents, fewer than the page
  size 500, the cleanup deletes that page in one commit, reports a total of 300 when
  that commit is accepted, and makes exactly 1 query call: it stops without a second
  query once it has seen a short page. (When the commit is rejected, the handler throws
  the commit's error, as it does for every rejected delete.)
\<close>

theorem cleanup_short_page:
  assumes "queryOutcome e (length (queryLog w)) = Inr p" "length p = 300"
  shows "\<exists>r w'. cleanupOldDocuments e w = Some (r, w') \<and>
                length (queryLog w') = length (queryLog w) + 1 \<and>
                commitLog w' = commitLog w @ [map DeleteOp p] \<and>
                (case commitOutcome e (length (commitLog w)) of
                   None \<Rightarrow> r = Inr 300
                 | Some err \<Rightarrow> r = Inl err)"
proof -
  let ?th = "clock e (clockReads w) - CONFIG_cleanupThresholdHours * 60 * 60 * 1000"
  let ?q = "(CONFIG_collections_stressTest, ?th, 500::nat)"
  let ?w1 = "w\<lparr>clockReads := Suc (clockReads w)\<rparr>"
  let ?w2 = "?w1\<lparr>queryLog := queryLog ?w1 @ [?q], commitLog := commitLog ?w1 @ [map DeleteOp p]\<rparr>"
  have s0: "cleanupOldDocuments e w = cleanupLoop e ?th 0 ?w1"
    by (simp add: cleanupOldDocuments_def Timestamp_now_def)
  have p: "p \<noteq> []" "length p < 500" "length p \<le> 500" using assms(2) by auto
  show ?thesis
  proof (cases "commitOutcome e (length (commitLog w))")
    case None
    have "cleanupLoop e ?th 0 ?w1 = Some (Inr (0 + length p), ?w2)"
      by (rule cleanupLoop_short_page) (use assms p None in simp_all)
    then have "cleanupOldDocuments e w = Some (Inr 300, ?w2)" using s0 assms(2) by simp
    then show ?thesis using None by simp
  next
    case (Some err)
    have "cleanupLoop e ?th 0 ?w1 = Some (Inl err, ?w2)"
      by (rule cleanupLoop_commit_fails) (use assms p Some in simp_all)
    then have "cleanupOldDocuments e w = Some (Inl err, ?w2)" using s0 by simp
    then show ?thesis using Some by simp
  qed
qed

text \<open>A store that answers 300 documents to every query and accepts the commit.\<close>

theorem cleanup_short_page_witness:
  "map_option fst (cleanupOldDocuments envPage_300 world0) = Some (Inr 300) \<and>
   map_option (queryCalls \<circ> snd) (cleanupOldDocuments envPage_300 world0) = Some 1 \<and>
   map_option (commitCalls \<circ> snd) (cleanupOldDocuments envPage_300 world0) = Some 1"
proof -
  have "\<exists>r w'. cleanupOldDocuments envPage_300 world0 = Some (r, w') \<and>
                length (queryLog w') = length (queryLog world0) + 1 \<and>
                commitLog w' = commitLog world0 @ [map DeleteOp (replicate 300 oldDoc)] \<and>
                (case commitOutcome envPage_300 (length (commitLog world0)) of
                   None \<Rightarrow> r = Inr 300
                 | Some err \<Rightarrow> r = Inl err)"
    by (rule cleanup_short_page) (simp_all add: envPage_300_def envOK_def world0_def)
  then show ?thesis
    by (auto simp: queryCalls_def commitCalls_def world0_def envPage_300_def envOK_def)
qed

section \<open>The reconciliation reports\<close>

subsection \<open>Fetching the counts, and the paths of the two operations\<close>

lemma fetchCounts_result:
  "fst (fetchCounts e cfg path w) =
     Promise_all (bqRejectsFirst e (promiseAllCalls w))
       (fsCountOutcome e (length (fsCountLog w))) (bqCountOutcome e (length (bqQueryLog w)))"
  by (simp add: fetchCounts_def getFirestoreCount_def getBigQueryCount_def)

lemma fetchCounts_world:
  "snd (fetchCounts e cfg path w) =
     w\<lparr>fsCountLog := fsCountLog w @ [path], bqQueryLog := bqQueryLog w @ [cfg],
       promiseAllCalls := Suc (promiseAllCalls w)\<rparr>"
  by (simp add: fetchCounts_def getFirestoreCount_def getBigQueryCount_def)

lemma Promise_all_Inr:
  "Promise_all b r1 r2 = Inr (x, y) \<longleftrightarrow> r1 = Inr x \<and> r2 = Inr y"
  by (auto simp: Promise_all_def split: sum.splits)

lemma Promise_all_Inl:
  "Promise_all b r1 r2 = Inl err \<Longrightarrow> r1 = Inl err \<or> r2 = Inl err"
  by (auto simp: Promise_all_def split: sum.splits if_splits)


lemma finalizeCatch_throws:
  assumes "jsonStringify e err = Inl thrown"
  shows "finalizeCatch e reportId err w = (Inl thrown, w)"
  using assms by (simp add: finalizeCatch_def)

lemma finalizeCatch_result:
  assumes "jsonStringify e err = Inr s"
  shows "fst (finalizeCatch e reportId err w) =
     (case updateOutcome e (length (updateLog w)) of None \<Rightarrow> Inl err | Some err2 \<Rightarrow> Inl err2)"
  using assms by (simp add: finalizeCatch_def Timestamp_now_def docUpdate_def split: option.splits)

lemma finalizeCatch_updateLog:
  assumes "jsonStringify e err = Inr s"
  shows "updateLog (snd (finalizeCatch e reportId err w)) =
     updateLog w @ [((''monitoring'', reportId), failedReport s (clock e (clockReads w)))]"
  using assms by (simp add: finalizeCatch_def Timestamp_now_def docUpdate_def split: option.splits)

lemma finalizeReport_fetch_rejected:
  assumes "fst (fetchCounts e cfg path w) = Inl err"
  shows "finalizeReport e cfg reportId path w =
           finalizeCatch e reportId err (snd (fetchCounts e cfg path w))"
  using assms by (cases "fetchCounts e cfg path w") (simp add: finalizeReport_def)

lemma finalizeReport_update_accepted:
  assumes "fst (fetchCounts e cfg path w) = Inr (x, y)"
    and "updateOutcome e (length (updateLog w)) = None"
  shows "fst (finalizeReport e cfg reportId path w) = Inr () \<and>
         updateLog (snd (finalizeReport e cfg reportId path w)) =
           updateLog w @ [((''monitoring'', reportId), completedReport x y (clock e (clockReads w)))]"
  using assms fetchCounts_world[of e cfg path w]
  by (cases "fetchCounts e cfg path w")
     (simp add: finalizeReport_def Timestamp_now_def docUpdate_def)

lemma finalizeReport_update_rejected:
  assumes "fst (fetchCounts e cfg path w) = Inr (x, y)"
    and "updateOutcome e (length (updateLog w)) = Some err"
  shows "finalizeReport e cfg reportId path w =
           finalizeCatch e reportId err
             ((snd (fetchCounts e cfg path w))
                \<lparr>clockReads := Suc (clockReads w),
                  updateLog := updateLog w @
                    [((''monitoring'', reportId), completedReport x y (clock e (clockReads w)))]\<rparr>)"
  using assms fetchCounts_world[of e cfg path w]
  by (cases "fetchCounts e cfg path w")
     (simp add: finalizeReport_def Timestamp_now_def docUpdate_def)



subsection \<open>The claims about the reports\<close>

text \<open>
  Claim C6, amended. An invocation of \<open>finalizeReport\<close> in which the error that the
  \<open>catch\<close> block receives, if any, can be serialized makes exactly one update call when
  both count fetches succeed and the update to \<open>completed\<close> is accepted, and exactly one
  when a count fetch is rejected. It makes two when both count fetches succeed and the
  update to \<open>completed\<close> is rejected: that update is inside the \<open>try\<close>, and the \<open>catch\<close>
  block then issues the update to \<open>failed\<close> as well.
\<close>

theorem finalizeReport_update_calls:
  "(\<forall>x y. fsCountOutcome e (length (fsCountLog w)) = Inr x \<and>
          bqCountOutcome e (length (bqQueryLog w)) = Inr y \<and>
          updateOutcome e (length (updateLog w)) = None \<longrightarrow>
      updateCalls (snd (finalizeReport e cfg reportId path w)) = updateCalls w + 1) \<and>
   (\<forall>x y err s. fsCountOutcome e (length (fsCountLog w)) = Inr x \<and>
          bqCountOutcome e (length (bqQueryLog w)) = Inr y \<and>
          updateOutcome e (length (updateLog w)) = Some err \<and>
          jsonStringify e err = Inr s \<longrightarrow>
      updateCalls (snd (finalizeReport e cfg reportId path w)) = updateCalls w + 2) \<and>
   (\<forall>err s. fst (fetchCounts e cfg path w) = Inl err \<and> jsonStringify e err = Inr s \<longrightarrow>
      updateCalls (snd (finalizeReport e cfg reportId path w)) = updateCalls w + 1)"
proof (intro conjI allI impI)
  fix x y
  assume a: "fsCountOutcome e (length (fsCountLog w)) = Inr x \<and>
          bqCountOutcome e (length (bqQueryLog w)) = Inr y \<and>
          updateOutcome e (length (updateLog w)) = None"
  then have f: "fst (fetchCounts e cfg path w) = Inr (x, y)"
    by (simp add: fetchCounts_result Promise_all_Inr)
  show "updateCalls (snd (finalizeReport e cfg reportId path w)) = updateCalls w + 1"
    using finalizeReport_update_accepted[OF f, of reportId] a by (simp add: updateCalls_def)
next
  fix x y err s
  assume a: "fsCountOutcome e (length (fsCountLog w)) = Inr x \<and>
          bqCountOutcome e (length (bqQueryLog w)) = Inr y \<and>
          updateOutcome e (length (updateLog w)) = Some err \<and>
          jsonStringify e err = Inr s"
  then have f: "fst (fetchCounts e cfg path w) = Inr (x, y)"
    by (simp add: fetchCounts_result Promise_all_Inr)
  have u: "updateOutcome e (length (updateLog w)) = Some err" and j: "jsonStringify e err = Inr s"
    using a by simp_all
  show "updateCalls (snd (finalizeReport e cfg reportId path w)) = updateCalls w + 2"
    by (simp add: finalizeReport_update_rejected[OF f u] finalizeCatch_updateLog[OF j]
        updateCalls_def)
next
  fix err s
  assume a: "fst (fetchCounts e cfg path w) = Inl err \<and> jsonStringify e err = Inr s"
  then have f: "fst (fetchCounts e cfg path w) = Inl err" and j: "jsonStringify e err = Inr s"
    by simp_all
  show "updateCalls (snd (finalizeReport e cfg reportId path w)) = updateCalls w + 1"
    by (simp add: finalizeReport_fetch_rejected[OF f] finalizeCatch_updateLog[OF j]
        fetchCounts_world updateCalls_def)
qed

text \<open>
  Finalizations on a store where everything succeeds, on one that rejects the updates,
  and on one that rejects the Firestore count.
\<close>

theorem finalizeReport_update_calls_witness:
  "updateCalls world0 = 0 \<and>
   updateCalls (snd (finalizeReport envOK testConfig ''test-report-id'' ''test-collection'' world0)) = 1 \<and>
   updateCalls (snd (finalizeReport envUpdateFails testConfig ''test-report-id'' ''test-collection'' world0)) = 2 \<and>
   updateCalls (snd (finalizeReport envCountFails testConfig ''test-report-id'' ''test-collection'' world0)) = 1"
proof -
  have f: "fst (fetchCounts envCountFails testConfig ''test-collection'' world0) =
             Inl (Error ''Count failed'')"
    by (simp add: fetchCounts_result Promise_all_def envCountFails_def envOK_def world0_def)
  have a: "updateCalls (snd (finalizeReport envOK testConfig ''test-report-id'' ''test-collection'' world0)) =
             updateCalls world0 + 1"
    using finalizeReport_update_calls[of envOK world0 testConfig "''test-report-id''" "''test-collection''"]
    by (simp add: envOK_def world0_def)
  have b: "updateCalls (snd (finalizeReport envUpdateFails testConfig ''test-report-id'' ''test-collection'' world0)) =
             updateCalls world0 + 2"
    using finalizeReport_update_calls[of envUpdateFails world0 testConfig "''test-report-id''" "''test-collection''"]
    by (simp add: envUpdateFails_def envOK_def world0_def)
  have c: "updateCalls (snd (finalizeReport envCountFails testConfig ''test-report-id'' ''test-collection'' world0)) =
             updateCalls world0 + 1"
    using finalizeReport_update_calls[of envCountFails world0 testConfig "''test-report-id''" "''test-collection''"] f
    by (simp add: envCountFails_def envOK_def)
  have z: "updateCalls world0 = 0" by (simp add: updateCalls_def world0_def)
  show ?thesis using a b c z by simp
qed

text \<open>
  Claim C6 says that every invocation of \<open>finalizeReport\<close> makes exactly one update
  call. On a store that answers both counts and rejects the updates, one invocation
  makes two update calls.
\<close>

theorem finalizeReport_updates_twice:
  "fst (finalizeReport envUpdateFails testConfig ''test-report-id'' ''test-collection'' world0) =
     Inl (Error ''Update failed'') \<and>
   updateCalls world0 = 0 \<and>
   updateCalls (snd (finalizeReport envUpdateFails testConfig ''test-report-id'' ''test-collection'' world0)) = 2"
  by (simp add: finalizeReport_def finalizeCatch_def fetchCounts_def getFirestoreCount_def
      getBigQueryCount_def Promise_all_def Timestamp_now_def docUpdate_def updateCalls_def
      envUpdateFails_def envOK_def world0_def)


text \<open>
  What \<open>finalizeReport\<close> writes. With both counts fetched, its first update carries the
  after-counts, the status \<open>completed\<close> and the completion instant, and it returns when
  that update is accepted. With a fetch rejected and the caught error serialized, its
  only update carries the status \<open>failed\<close>, the serialized error and the completion
  instant, and the caught error is thrown when that update is accepted.
\<close>

lemma finalizeReport_paths:
  "(\<forall>x y. fsCountOutcome e (length (fsCountLog w)) = Inr x \<and>
          bqCountOutcome e (length (bqQueryLog w)) = Inr y \<longrightarrow>
      (\<exists>rest. updateLog (snd (finalizeReport e cfg reportId path w)) =
                 updateLog w @
                   ((''monitoring'', reportId), completedReport x y (clock e (clockReads w))) # rest) \<and>
      (updateOutcome e (length (updateLog w)) = None \<longrightarrow>
         fst (finalizeReport e cfg reportId path w) = Inr () \<and>
         updateLog (snd (finalizeReport e cfg reportId path w)) =
           updateLog w @
             [((''monitoring'', reportId), completedReport x y (clock e (clockReads w)))])) \<and>
   (\<forall>err s. fst (fetchCounts e cfg path w) = Inl err \<and> jsonStringify e err = Inr s \<longrightarrow>
      (fsCountOutcome e (length (fsCountLog w)) = Inl err \<or>
       bqCountOutcome e (length (bqQueryLog w)) = Inl err) \<and>
      updateLog (snd (finalizeReport e cfg reportId path w)) =
        updateLog w @
          [((''monitoring'', reportId), failedReport s (clock e (clockReads w)))] \<and>
      (updateOutcome e (length (updateLog w)) = None \<longrightarrow>
         fst (finalizeReport e cfg reportId path w) = Inl err))"
proof (intro conjI allI impI)
  fix x y
  assume "fsCountOutcome e (length (fsCountLog w)) = Inr x \<and>
          bqCountOutcome e (length (bqQueryLog w)) = Inr y"
  then have f: "fst (fetchCounts e cfg path w) = Inr (x, y)"
    by (simp add: fetchCounts_result Promise_all_Inr)
  show "\<exists>rest. updateLog (snd (finalizeReport e cfg reportId path w)) =
                 updateLog w @
                   ((''monitoring'', reportId), completedReport x y (clock e (clockReads w))) # rest"
  proof (cases "updateOutcome e (length (updateLog w))")
    case None
    then show ?thesis using finalizeReport_update_accepted[OF f None, of reportId] by simp
  next
    case (Some err)
    show ?thesis
      by (simp add: finalizeReport_update_rejected[OF f Some] finalizeCatch_def Timestamp_now_def
          docUpdate_def split: sum.splits option.splits)
  qed
  show "fst (finalizeReport e cfg reportId path w) = Inr ()"
    if "updateOutcome e (length (updateLog w)) = None"
    using finalizeReport_update_accepted[OF f that, of reportId] by simp
  show "updateLog (snd (finalizeReport e cfg reportId path w)) =
           updateLog w @
             [((''monitoring'', reportId), completedReport x y (clock e (clockReads w)))]"
    if "updateOutcome e (length (updateLog w)) = None"
    using finalizeReport_update_accepted[OF f that, of reportId] by simp
next
  fix err s
  assume a: "fst (fetchCounts e cfg path w) = Inl err \<and> jsonStringify e err = Inr s"
  then have f: "fst (fetchCounts e cfg path w) = Inl err" and j: "jsonStringify e err = Inr s"
    by simp_all
  show "fsCountOutcome e (length (fsCountLog w)) = Inl err \<or>
        bqCountOutcome e (length (bqQueryLog w)) = Inl err"
    using f Promise_all_Inl by (metis fetchCounts_result)
  show "updateLog (snd (finalizeReport e cfg reportId path w)) =
        updateLog w @
          [((''monitoring'', reportId), failedReport s (clock e (clockReads w)))]"
    by (simp add: finalizeReport_fetch_rejected[OF f] finalizeCatch_updateLog[OF j] fetchCounts_world)
  show "fst (finalizeReport e cfg reportId path w) = Inl err"
    if "updateOutcome e (length (updateLog w)) = None"
    using that
    by (simp add: finalizeReport_fetch_rejected[OF f] finalizeCatch_result[OF j] fetchCounts_world)
qed

text \<open>
  Claim C7. After a rejected count fetch, \<open>finalizeReport\<close> is to record the failure in
  the report and throw the original fetch error again. The \<open>catch\<close> block calls
  \<open>JSON.stringify\<close> and awaits the update before its \<open>throw error\<close>, neither of them
  guarded. On a store that rejects the Firestore count and the update, the caller gets
  the error of the update, not the fetch error. With a fetch error that
  \<open>JSON.stringify\<close> cannot serialize, no update is made and the caller gets what
  \<open>JSON.stringify\<close> threw.
\<close>

theorem finalizeReport_loses_fetch_error:
  "fsCountOutcome envCountAndUpdateFail (length (fsCountLog world0)) = Inl (Error ''Count failed'') \<and>
   fst (finalizeReport envCountAndUpdateFail testConfig ''test-report-id'' ''test-collection'' world0) =
     Inl (Error ''Update failed'') \<and>
   fsCountOutcome envCountFailsCircular (length (fsCountLog world0)) = Inl (Error ''Count failed'') \<and>
   fst (finalizeReport envCountFailsCircular testConfig ''test-report-id'' ''test-collection'' world0) =
     Inl (Error ''Converting circular structure to JSON'') \<and>
   updateCalls (snd (finalizeReport envCountFailsCircular testConfig ''test-report-id''
                       ''test-collection'' world0)) = 0"
  by (simp add: finalizeReport_def finalizeCatch_def fetchCounts_def getFirestoreCount_def
      getBigQueryCount_def Promise_all_def Timestamp_now_def docUpdate_def updateCalls_def
      envCountAndUpdateFail_def envCountFailsCircular_def envCountFails_def envOK_def world0_def)



end
